theory Spec2Isabelle
  imports Main "HOL-Library.Word"
begin

section \<open>Python values and exceptions\<close>

text \<open>
  The exceptions that \<^verbatim>\<open>avroio.py\<close> raises itself or lets escape from the
  operations it uses.  A raise is the \<open>Inl\<close> branch of a sum.
\<close>

datatype error = TypeError | ValueError | KeyError | IndexError | AttributeError | RuntimeError

type_synonym byte = "8 word"

text \<open>
  Runtime values that flow through the converters: \<^verbatim>\<open>None\<close>, booleans,
  unbounded integers, floats (kept as their IEEE bit pattern), strings, bytes, lists,
  dicts (insertion-ordered association lists) and \<^verbatim>\<open>beam.Row\<close> objects
  (named fields in order).
\<close>

datatype pyval =
    PNone
  | PBool bool
  | PInt int
  | PFloat "64 word"
  | PStr string
  | PBytes "byte list"
  | PList "pyval list"
  | PDict "(pyval \<times> pyval) list"
  | PRow "(string \<times> pyval) list"

section \<open>Atomic value conversion\<close>

text \<open>
  \<^verbatim>\<open>ctypes.c_uint32(value).value\<close> and its siblings.  The constructors accept a
  Python integer (a \<^verbatim>\<open>bool\<close> is one), keep its low 32 or 64 bits without any
  overflow check, and \<^verbatim>\<open>.value\<close> reads them back unsigned or signed.  Every
  other argument raises \<^verbatim>\<open>TypeError\<close>.
\<close>

fun c_uint32 :: "pyval \<Rightarrow> error + pyval" where
  "c_uint32 (PInt i) = Inr (PInt (uint (word_of_int i :: 32 word)))"
| "c_uint32 (PBool b) = Inr (PInt (uint (word_of_int (if b then 1 else 0) :: 32 word)))"
| "c_uint32 _ = Inl TypeError"

fun c_uint64 :: "pyval \<Rightarrow> error + pyval" where
  "c_uint64 (PInt i) = Inr (PInt (uint (word_of_int i :: 64 word)))"
| "c_uint64 (PBool b) = Inr (PInt (uint (word_of_int (if b then 1 else 0) :: 64 word)))"
| "c_uint64 _ = Inl TypeError"

fun c_int32 :: "pyval \<Rightarrow> error + pyval" where
  "c_int32 (PInt i) = Inr (PInt (sint (word_of_int i :: 32 word)))"
| "c_int32 (PBool b) = Inr (PInt (sint (word_of_int (if b then 1 else 0) :: 32 word)))"
| "c_int32 _ = Inl TypeError"

fun c_int64 :: "pyval \<Rightarrow> error + pyval" where
  "c_int64 (PInt i) = Inr (PInt (sint (word_of_int i :: 64 word)))"
| "c_int64 (PBool b) = Inr (PInt (sint (word_of_int (if b then 1 else 0) :: 64 word)))"
| "c_int64 _ = Inl TypeError"

definition avro_atomic_value_to_beam_atomic_value :: "string \<Rightarrow> pyval \<Rightarrow> error + pyval" where
  "avro_atomic_value_to_beam_atomic_value avro_type v =
     (if avro_type = ''int'' then c_uint32 v
      else if avro_type = ''long'' then c_uint64 v
      else Inr v)"

definition beam_atomic_value_to_avro_atomic_value :: "string \<Rightarrow> pyval \<Rightarrow> error + pyval" where
  "beam_atomic_value_to_avro_atomic_value avro_type v =
     (if avro_type = ''int'' then c_int32 v
      else if avro_type = ''long'' then c_int64 v
      else Inr v)"

section \<open>Schemas\<close>

text \<open>
  An Avro schema is the JSON-like document that \<^verbatim>\<open>fastavro\<close> hands over
  (\<^verbatim>\<open>_AvroSchemaType = Union[str, List, Dict]\<close>): a string, a list (a union) or a
  dict, whose values may also be numbers (the size of a fixed).  A dict is an association
  list in insertion order; \<^verbatim>\<open>d[k]\<close> is \<open>map_of d k\<close> and raises
  \<^verbatim>\<open>KeyError\<close> on \<open>None\<close>.
\<close>

datatype json = JStr string | JNum int | JList "json list" | JDict "(string \<times> json) list"

text \<open>
  Modelled from the spec: the row type system of \<^verbatim>\<open>schema_pb2\<close>, whose
  declarations are not part of the source file.  A field type carries a nullable flag and
  one of atomic, array, iterable, map (key and value), row (an ordered list of named
  fields) or logical; \<open>NotSet\<close> is a message whose \<^verbatim>\<open>type_info\<close> is unset, for
  which \<^verbatim>\<open>WhichOneof\<close> returns \<^verbatim>\<open>None\<close>.  The atomic kinds are the
  enumeration \<^verbatim>\<open>AtomicType\<close>, \<open>UNSPECIFIED\<close> being the value read from a message
  that holds no atomic type.
\<close>

datatype atomic_type =
  UNSPECIFIED | BYTE | INT16 | INT32 | INT64 | FLOAT | DOUBLE | STRING | BOOLEAN | BYTES

datatype field_type = FieldType (nullable: bool) (type_info: type_info)
and type_info =
    NotSet
  | AtomicType atomic_type
  | ArrayType field_type
  | IterableType field_type
  | MapType field_type field_type
  | RowType schema
  | LogicalType string
and schema = Schema (schema_id: string) (schema_fields: "(string \<times> field_type) list")

definition AVRO_PRIMITIVES_TO_BEAM_PRIMITIVES :: "(string \<times> atomic_type) list" where
  "AVRO_PRIMITIVES_TO_BEAM_PRIMITIVES =
     [(''boolean'', BOOLEAN), (''int'', INT32), (''long'', INT64), (''float'', FLOAT),
      (''double'', DOUBLE), (''bytes'', BYTES), (''string'', STRING)]"

definition BEAM_PRIMITIVES_TO_AVRO_PRIMITIVES :: "(atomic_type \<times> string) list" where
  "BEAM_PRIMITIVES_TO_AVRO_PRIMITIVES =
     map (\<lambda>(k, v). (v, k)) AVRO_PRIMITIVES_TO_BEAM_PRIMITIVES"

text \<open>
  \<^verbatim>\<open>x in AVRO_PRIMITIVES_TO_BEAM_PRIMITIVES\<close>.  Membership in a dict hashes the
  key: a list or a dict is unhashable and the test raises \<^verbatim>\<open>TypeError\<close>.
  \<open>lookup_avro_primitive\<close> is the subscript \<^verbatim>\<open>AVRO_PRIMITIVES_TO_BEAM_PRIMITIVES[x]\<close>
  taken after a successful membership test.
\<close>

fun in_avro_primitives :: "json \<Rightarrow> error + bool" where
  "in_avro_primitives (JStr s) = Inr (map_of AVRO_PRIMITIVES_TO_BEAM_PRIMITIVES s \<noteq> None)"
| "in_avro_primitives (JNum n) = Inr False"
| "in_avro_primitives (JList l) = Inl TypeError"
| "in_avro_primitives (JDict d) = Inl TypeError"

fun lookup_avro_primitive :: "json \<Rightarrow> atomic_type" where
  "lookup_avro_primitive (JStr s) =
     (case map_of AVRO_PRIMITIVES_TO_BEAM_PRIMITIVES s of Some a \<Rightarrow> a | None \<Rightarrow> UNSPECIFIED)"
| "lookup_avro_primitive _ = UNSPECIFIED"

text \<open>
  Modelled from the spec: \<^verbatim>\<open>schemas.typing_to_runner_api(Any)\<close>, the opaque
  "any" logical type that is not introspected further.
\<close>

definition any_type :: field_type where
  "any_type = FieldType True (LogicalType ''beam:logical:pythonsdk_any:v1'')"

text \<open>
  \<^verbatim>\<open>avro_union_type_to_beam_type\<close>: \<open>union_members\<close> is its \<^verbatim>\<open>for\<close>
  loop, which returns at the first member found among the primitives and falls through to
  the any type.  \<^verbatim>\<open>"null" in union_type\<close> compares the members with
  \<^verbatim>\<open>==\<close>.
\<close>

fun union_members :: "json list \<Rightarrow> error + field_type" where
  "union_members [] = Inr any_type"
| "union_members (avro_type # rest) =
     (case in_avro_primitives avro_type of
        Inl e \<Rightarrow> Inl e
      | Inr True \<Rightarrow> Inr (FieldType True (AtomicType (lookup_avro_primitive avro_type)))
      | Inr False \<Rightarrow> union_members rest)"

definition avro_union_type_to_beam_type :: "json list \<Rightarrow> error + field_type" where
  "avro_union_type_to_beam_type union_type =
     (if length union_type = 2 \<and> JStr ''null'' \<in> set union_type
      then union_members union_type
      else Inr any_type)"

text \<open>
  \<^verbatim>\<open>avro_type_to_beam_type\<close> calls itself on \<^verbatim>\<open>{'type': avro_type}\<close>
  for a string, a larger document, so its termination needs a measure of its own:
  \<open>jmeasure\<close> ranks a string above the one-entry dict that wraps it and every other
  document by its weight.
\<close>

fun jweight :: "json \<Rightarrow> nat" where
  "jweight (JStr s) = 1"
| "jweight (JNum n) = 1"
| "jweight (JList l) = Suc (sum_list (map jweight l))"
| "jweight (JDict d) = Suc (sum_list (map (\<lambda>kv. jweight (snd kv)) d))"

fun jmeasure :: "json \<Rightarrow> nat" where
  "jmeasure (JStr s) = 2"
| "jmeasure (JDict [(k, JStr s)]) = 1"
| "jmeasure x = 2 + jweight x"

lemma jmeasure_le: "jmeasure x \<le> 2 + jweight x"
  by (induction x rule: jmeasure.induct) simp_all

lemma jweight_map_of:
  "map_of d k = Some v \<Longrightarrow> jweight v \<le> sum_list (map (\<lambda>kv. jweight (snd kv)) d)"
  by (induction d) (auto split: if_splits)

lemma jmeasure_dict:
  "\<not> (\<exists>k s. d = [(k, JStr s)]) \<Longrightarrow> jmeasure (JDict d) = 2 + jweight (JDict d)"
  by (cases "JDict d" rule: jmeasure.cases) auto

lemma jmeasure_two_keys:
  assumes "map_of d k = Some v" "map_of d k' = Some v'" "k \<noteq> k'"
  shows "jmeasure v < jmeasure (JDict d)"
proof -
  from assms have "\<not> (\<exists>k0 s. d = [(k0, JStr s)])"
    by (auto split: if_splits)
  then have "jmeasure (JDict d) = 2 + jweight (JDict d)"
    by (rule jmeasure_dict)
  moreover have "jweight v \<le> sum_list (map (\<lambda>kv. jweight (snd kv)) d)"
    using assms(1) by (rule jweight_map_of)
  moreover have "jmeasure v \<le> 2 + jweight v"
    by (rule jmeasure_le)
  ultimately show ?thesis by simp
qed

lemma jmeasure_fields:
  assumes "map_of d k = Some (JList fs)"
  shows "3 + sum_list (map jweight fs) < jmeasure (JDict d)"
proof -
  from assms have "\<not> (\<exists>k0 s. d = [(k0, JStr s)])"
    by (auto split: if_splits)
  then have "jmeasure (JDict d) = 2 + jweight (JDict d)"
    by (rule jmeasure_dict)
  moreover have "jweight (JList fs) \<le> sum_list (map (\<lambda>kv. jweight (snd kv)) d)"
    using assms by (rule jweight_map_of)
  ultimately show ?thesis by simp
qed

lemma jmeasure_field_type:
  assumes "map_of f k = Some t"
  shows "jmeasure t < 3 + sum_list (map jweight (JDict f # rest))"
proof -
  have "jweight t \<le> sum_list (map (\<lambda>kv. jweight (snd kv)) f)"
    using assms by (rule jweight_map_of)
  moreover have "jmeasure t \<le> 2 + jweight t"
    by (rule jmeasure_le)
  ultimately show ?thesis by simp
qed

text \<open>
  \<^verbatim>\<open>avro_type_to_beam_type\<close>.  \<open>avro_fields_to_beam_fields\<close> is the list
  comprehension over \<^verbatim>\<open>avro_type['fields']\<close>: each field is subscripted with
  \<^verbatim>\<open>'name'\<close> and \<^verbatim>\<open>'type'\<close> (a \<^verbatim>\<open>TypeError\<close> unless it is a dict),
  and \<^verbatim>\<open>schemas.schema_field\<close> (modelled from the spec: a named, typed field)
  wants a string for the name.  Iterating a non-empty string or dict yields strings, which
  cannot be subscripted with \<^verbatim>\<open>'name'\<close>; a number is not iterable.  A schema
  built by \<^verbatim>\<open>schema_pb2.Schema(fields=...)\<close> has the empty identifier.
\<close>

function (sequential) avro_type_to_beam_type :: "json \<Rightarrow> error + field_type"
  and avro_fields_to_beam_fields :: "json list \<Rightarrow> error + (string \<times> field_type) list" where
  "avro_type_to_beam_type (JStr s) = avro_type_to_beam_type (JDict [(''type'', JStr s)])"
| "avro_type_to_beam_type (JList union_type) = avro_union_type_to_beam_type union_type"
| "avro_type_to_beam_type (JNum n) = Inl TypeError"
| "avro_type_to_beam_type (JDict d) =
     (case map_of d ''type'' of
        None \<Rightarrow> Inl KeyError
      | Some type_name \<Rightarrow>
          (case in_avro_primitives type_name of
             Inl e \<Rightarrow> Inl e
           | Inr True \<Rightarrow> Inr (FieldType False (AtomicType (lookup_avro_primitive type_name)))
           | Inr False \<Rightarrow>
               if type_name = JStr ''fixed'' \<or> type_name = JStr ''enum''
               then Inr (FieldType False (AtomicType STRING))
               else if type_name = JStr ''array'' then
                 (case map_of d ''items'' of
                    None \<Rightarrow> Inl KeyError
                  | Some items \<Rightarrow>
                      (case avro_type_to_beam_type items of
                         Inl e \<Rightarrow> Inl e
                       | Inr element_type \<Rightarrow> Inr (FieldType False (ArrayType element_type))))
               else if type_name = JStr ''map'' then
                 (case map_of d ''values'' of
                    None \<Rightarrow> Inl KeyError
                  | Some vals \<Rightarrow>
                      (case avro_type_to_beam_type vals of
                         Inl e \<Rightarrow> Inl e
                       | Inr value_type \<Rightarrow>
                           Inr (FieldType False
                                 (MapType (FieldType False (AtomicType STRING)) value_type))))
               else if type_name = JStr ''record'' then
                 (case map_of d ''fields'' of
                    None \<Rightarrow> Inl KeyError
                  | Some (JList fs) \<Rightarrow>
                      (case avro_fields_to_beam_fields fs of
                         Inl e \<Rightarrow> Inl e
                       | Inr fields \<Rightarrow> Inr (FieldType False (RowType (Schema [] fields))))
                  | Some (JStr cs) \<Rightarrow>
                      if cs = [] then Inr (FieldType False (RowType (Schema [] [])))
                      else Inl TypeError
                  | Some (JDict kvs) \<Rightarrow>
                      if kvs = [] then Inr (FieldType False (RowType (Schema [] [])))
                      else Inl TypeError
                  | Some (JNum n) \<Rightarrow> Inl TypeError)
               else Inl ValueError))"
| "avro_fields_to_beam_fields [] = Inr []"
| "avro_fields_to_beam_fields (JDict f # rest) =
     (case map_of f ''name'' of
        None \<Rightarrow> Inl KeyError
      | Some name \<Rightarrow>
          (case map_of f ''type'' of
             None \<Rightarrow> Inl KeyError
           | Some t \<Rightarrow>
               (case avro_type_to_beam_type t of
                  Inl e \<Rightarrow> Inl e
                | Inr field_type \<Rightarrow>
                    (case name of
                       JStr n \<Rightarrow>
                         (case avro_fields_to_beam_fields rest of
                            Inl e \<Rightarrow> Inl e
                          | Inr fields \<Rightarrow> Inr ((n, field_type) # fields))
                     | _ \<Rightarrow> Inl TypeError))))"
| "avro_fields_to_beam_fields (_ # rest) = Inl TypeError"
  by pat_completeness auto
termination
proof (relation "measure (\<lambda>x. case x of Inl j \<Rightarrow> jmeasure j
                                 | Inr fs \<Rightarrow> 3 + sum_list (map jweight fs))", goal_cases)
  case 1
  show ?case by simp
next
  case (2 s)
  show ?case by simp
next
  case (3 d type_name b items)
  then show ?case by (simp add: jmeasure_two_keys [of d "''items''" items "''type''"])
next
  case (4 d type_name b vals)
  then show ?case by (simp add: jmeasure_two_keys [of d "''values''" vals "''type''"])
next
  case (5 d type_name b fs l)
  then show ?case by (simp add: jmeasure_fields [of d "''fields''"])
next
  case (6 f rest name t)
  then show ?case using jmeasure_field_type [of f "''type''" t rest] by simp
next
  case (7 f rest name t field_type n)
  then show ?case by simp
qed

text \<open>
  \<^verbatim>\<open>key_type.atomic_type\<close>: reading the atomic type of a message that holds
  another kind of type gives the default of the enumeration.
\<close>

fun atomic_type_of :: "field_type \<Rightarrow> atomic_type" where
  "atomic_type_of (FieldType n (AtomicType a)) = a"
| "atomic_type_of _ = UNSPECIFIED"

text \<open>
  \<^verbatim>\<open>beam_type_to_avro_type\<close>.  In the map branch the argument of the recursive
  call is \<^verbatim>\<open>beam_type.map_type.element_type\<close>; a map type has a key type and a
  value type (as the other three functions of the file read them) and no element type, so
  evaluating the argument raises \<^verbatim>\<open>AttributeError\<close> before the call is made.
\<close>

fun beam_type_to_avro_type :: "field_type \<Rightarrow> error + json"
  and beam_fields_to_avro_fields :: "(string \<times> field_type) list \<Rightarrow> error + json list" where
  "beam_type_to_avro_type (FieldType nl (AtomicType a)) =
     (case map_of BEAM_PRIMITIVES_TO_AVRO_PRIMITIVES a of
        None \<Rightarrow> Inl KeyError
      | Some avro_primitive \<Rightarrow>
          if nl then Inr (JList [JStr ''null'', JStr avro_primitive])
          else Inr (JDict [(''type'', JStr avro_primitive)]))"
| "beam_type_to_avro_type (FieldType nl (ArrayType element_type)) =
     (case beam_type_to_avro_type element_type of
        Inl e \<Rightarrow> Inl e
      | Inr items \<Rightarrow> Inr (JDict [(''type'', JStr ''array''), (''items'', items)]))"
| "beam_type_to_avro_type (FieldType nl (IterableType element_type)) =
     (case beam_type_to_avro_type element_type of
        Inl e \<Rightarrow> Inl e
      | Inr items \<Rightarrow> Inr (JDict [(''type'', JStr ''array''), (''items'', items)]))"
| "beam_type_to_avro_type (FieldType nl (MapType key_type value_type)) =
     (if atomic_type_of key_type \<noteq> STRING then Inl TypeError
      else Inl AttributeError)"
| "beam_type_to_avro_type (FieldType nl (RowType (Schema ident fields))) =
     (case beam_fields_to_avro_fields fields of
        Inl e \<Rightarrow> Inl e
      | Inr fs \<Rightarrow>
          Inr (JDict [(''type'', JStr ''record''), (''name'', JStr ident), (''fields'', JList fs)]))"
| "beam_type_to_avro_type (FieldType nl (LogicalType urn)) = Inl ValueError"
| "beam_type_to_avro_type (FieldType nl NotSet) = Inl ValueError"
| "beam_fields_to_avro_fields [] = Inr []"
| "beam_fields_to_avro_fields ((name, t) # rest) =
     (case beam_type_to_avro_type t of
        Inl e \<Rightarrow> Inl e
      | Inr avro_type \<Rightarrow>
          (case beam_fields_to_avro_fields rest of
             Inl e \<Rightarrow> Inl e
           | Inr fs \<Rightarrow> Inr (JDict [(''name'', JStr name), (''type'', avro_type)] # fs)))"

definition beam_schema_to_avro_schema :: "schema \<Rightarrow> error + json" where
  "beam_schema_to_avro_schema beam_schema =
     beam_type_to_avro_type (FieldType False (RowType beam_schema))"

text \<open>
  \<^verbatim>\<open>avro_schema_to_beam_schema\<close>.  \<open>is_record_dict\<close> is the test
  \<^verbatim>\<open>isinstance(avro_schema, dict) and avro_schema['type'] == 'record'\<close>, evaluated
  after the type conversion has succeeded (so the key is present), and
  \<open>row_type_schema\<close> is \<^verbatim>\<open>beam_type.row_type.schema\<close>.
\<close>

fun is_record_dict :: "json \<Rightarrow> bool" where
  "is_record_dict (JDict d) = (map_of d ''type'' = Some (JStr ''record''))"
| "is_record_dict _ = False"

fun row_type_schema :: "field_type \<Rightarrow> schema" where
  "row_type_schema (FieldType n (RowType s)) = s"
| "row_type_schema _ = Schema [] []"

definition avro_schema_to_beam_schema :: "json \<Rightarrow> error + schema" where
  "avro_schema_to_beam_schema avro_schema =
     (case avro_type_to_beam_type avro_schema of
        Inl e \<Rightarrow> Inl e
      | Inr beam_type \<Rightarrow>
          if is_record_dict avro_schema then Inr (row_type_schema beam_type)
          else Inr (Schema [] [(''record'', beam_type)]))"

section \<open>Value converters\<close>

text \<open>
  A converter is the closure that the construction functions return: it takes a value and
  returns the converted value or raises.  Building the closure and running it are two
  steps, each of which can fail: \<open>error + converter\<close>.
\<close>

type_synonym converter = "pyval \<Rightarrow> error + pyval"

fun map_result :: "('a \<Rightarrow> error + 'b) \<Rightarrow> 'a list \<Rightarrow> error + 'b list" where
  "map_result f [] = Inr []"
| "map_result f (x # xs) =
     (case f x of
        Inl e \<Rightarrow> Inl e
      | Inr y \<Rightarrow> (case map_result f xs of Inl e \<Rightarrow> Inl e | Inr ys \<Rightarrow> Inr (y # ys)))"

text \<open>
  A dict comprehension stores its items one by one: a repeated key keeps its first position
  and takes the last value.
\<close>

fun dict_set :: "'k \<Rightarrow> 'v \<Rightarrow> ('k \<times> 'v) list \<Rightarrow> ('k \<times> 'v) list" where
  "dict_set k v [] = [(k, v)]"
| "dict_set k v ((k', v') # rest) =
     (if k = k' then (k, v) # rest else (k', v') # dict_set k v rest)"

definition dict_of_items :: "('k \<times> 'v) list \<Rightarrow> ('k \<times> 'v) list" where
  "dict_of_items kvs = foldl (\<lambda>d (k, v). dict_set k v d) [] kvs"

text \<open>
  What the closures do with the value they are given: iterate over it, take its
  \<^verbatim>\<open>items()\<close>, subscript it with a field name, or read an attribute of it.
  Attributes other than the fields of a row are not modelled.
\<close>

fun iterate :: "pyval \<Rightarrow> error + pyval list" where
  "iterate (PList xs) = Inr xs"
| "iterate (PDict kvs) = Inr (map fst kvs)"
| "iterate (PStr s) = Inr (map (\<lambda>c. PStr [c]) s)"
| "iterate (PBytes bs) = Inr (map (\<lambda>b. PInt (uint b)) bs)"
| "iterate (PRow fs) = Inr (map snd fs)"
| "iterate _ = Inl TypeError"

fun dict_items :: "pyval \<Rightarrow> error + (pyval \<times> pyval) list" where
  "dict_items (PDict kvs) = Inr kvs"
| "dict_items _ = Inl AttributeError"

fun subscript_name :: "pyval \<Rightarrow> string \<Rightarrow> error + pyval" where
  "subscript_name (PDict kvs) name =
     (case map_of kvs (PStr name) of None \<Rightarrow> Inl KeyError | Some v \<Rightarrow> Inr v)"
| "subscript_name _ name = Inl TypeError"

fun getattr :: "pyval \<Rightarrow> string \<Rightarrow> error + pyval" where
  "getattr (PRow fs) name =
     (case map_of fs name of None \<Rightarrow> Inl AttributeError | Some v \<Rightarrow> Inr v)"
| "getattr _ name = Inl AttributeError"

text \<open>
  The four closures: \<^verbatim>\<open>[element_converter(e) for e in value]\<close>,
  \<^verbatim>\<open>{k: value_converter(v) for (k, v) in value.items()}\<close>,
  \<^verbatim>\<open>beam.Row(**{name: convert(value[name]) ...})\<close> and
  \<^verbatim>\<open>{name: convert(getattr(value, name)) ...}\<close>.
\<close>

definition list_converter :: "converter \<Rightarrow> converter" where
  "list_converter element_converter value =
     (case iterate value of
        Inl e \<Rightarrow> Inl e
      | Inr es \<Rightarrow>
          (case map_result element_converter es of Inl e \<Rightarrow> Inl e | Inr rs \<Rightarrow> Inr (PList rs)))"

definition map_converter :: "converter \<Rightarrow> converter" where
  "map_converter value_converter value =
     (case dict_items value of
        Inl e \<Rightarrow> Inl e
      | Inr kvs \<Rightarrow>
          (case map_result
                  (\<lambda>(k, v). case value_converter v of Inl e \<Rightarrow> Inl e | Inr r \<Rightarrow> Inr (k, r)) kvs of
             Inl e \<Rightarrow> Inl e
           | Inr rs \<Rightarrow> Inr (PDict (dict_of_items rs))))"

definition avro_row_converter :: "(string \<times> converter) list \<Rightarrow> converter" where
  "avro_row_converter converters value =
     (case map_result
             (\<lambda>(name, convert).
                 case subscript_name value name of
                   Inl e \<Rightarrow> Inl e
                 | Inr v \<Rightarrow> (case convert v of Inl e \<Rightarrow> Inl e | Inr r \<Rightarrow> Inr (name, r)))
             converters of
        Inl e \<Rightarrow> Inl e
      | Inr rs \<Rightarrow> Inr (PRow rs))"

definition beam_row_converter :: "(string \<times> converter) list \<Rightarrow> converter" where
  "beam_row_converter converters value =
     (case map_result
             (\<lambda>(name, convert).
                 case getattr value name of
                   Inl e \<Rightarrow> Inl e
                 | Inr v \<Rightarrow> (case convert v of Inl e \<Rightarrow> Inl e | Inr r \<Rightarrow> Inr (PStr name, r)))
             converters of
        Inl e \<Rightarrow> Inl e
      | Inr rs \<Rightarrow> Inr (PDict rs))"

text \<open>
  \<^verbatim>\<open>avro_value_to_beam_value\<close> and \<^verbatim>\<open>beam_value_to_avro_value\<close>: pure
  traversals of the type.  \<open>avro_field_converters\<close> and \<open>beam_field_converters\<close> are the
  dict comprehensions over the fields of a row, which build the converters in field order.
\<close>

fun avro_value_to_beam_value :: "field_type \<Rightarrow> error + converter"
  and avro_field_converters :: "(string \<times> field_type) list \<Rightarrow> error + (string \<times> converter) list" where
  "avro_value_to_beam_value (FieldType nl (AtomicType a)) =
     (case map_of BEAM_PRIMITIVES_TO_AVRO_PRIMITIVES a of
        None \<Rightarrow> Inl KeyError
      | Some avro_type \<Rightarrow> Inr (\<lambda>value. avro_atomic_value_to_beam_atomic_value avro_type value))"
| "avro_value_to_beam_value (FieldType nl (ArrayType element_type)) =
     (case avro_value_to_beam_value element_type of
        Inl e \<Rightarrow> Inl e
      | Inr element_converter \<Rightarrow> Inr (list_converter element_converter))"
| "avro_value_to_beam_value (FieldType nl (IterableType element_type)) =
     (case avro_value_to_beam_value element_type of
        Inl e \<Rightarrow> Inl e
      | Inr element_converter \<Rightarrow> Inr (list_converter element_converter))"
| "avro_value_to_beam_value (FieldType nl (MapType key_type value_type)) =
     (if atomic_type_of key_type \<noteq> STRING then Inl TypeError
      else
        (case avro_value_to_beam_value value_type of
           Inl e \<Rightarrow> Inl e
         | Inr value_converter \<Rightarrow> Inr (map_converter value_converter)))"
| "avro_value_to_beam_value (FieldType nl (RowType (Schema ident fields))) =
     (case avro_field_converters fields of
        Inl e \<Rightarrow> Inl e
      | Inr converters \<Rightarrow> Inr (avro_row_converter (dict_of_items converters)))"
| "avro_value_to_beam_value (FieldType nl (LogicalType urn)) = Inr (\<lambda>value. Inr value)"
| "avro_value_to_beam_value (FieldType nl NotSet) = Inl ValueError"
| "avro_field_converters [] = Inr []"
| "avro_field_converters ((name, t) # rest) =
     (case avro_value_to_beam_value t of
        Inl e \<Rightarrow> Inl e
      | Inr convert \<Rightarrow>
          (case avro_field_converters rest of
             Inl e \<Rightarrow> Inl e
           | Inr converters \<Rightarrow> Inr ((name, convert) # converters)))"

fun beam_value_to_avro_value :: "field_type \<Rightarrow> error + converter"
  and beam_field_converters :: "(string \<times> field_type) list \<Rightarrow> error + (string \<times> converter) list" where
  "beam_value_to_avro_value (FieldType nl (AtomicType a)) =
     (case map_of BEAM_PRIMITIVES_TO_AVRO_PRIMITIVES a of
        None \<Rightarrow> Inl KeyError
      | Some avro_type \<Rightarrow> Inr (\<lambda>value. beam_atomic_value_to_avro_atomic_value avro_type value))"
| "beam_value_to_avro_value (FieldType nl (ArrayType element_type)) =
     (case beam_value_to_avro_value element_type of
        Inl e \<Rightarrow> Inl e
      | Inr element_converter \<Rightarrow> Inr (list_converter element_converter))"
| "beam_value_to_avro_value (FieldType nl (IterableType element_type)) =
     (case beam_value_to_avro_value element_type of
        Inl e \<Rightarrow> Inl e
      | Inr element_converter \<Rightarrow> Inr (list_converter element_converter))"
| "beam_value_to_avro_value (FieldType nl (MapType key_type value_type)) =
     (if atomic_type_of key_type \<noteq> STRING then Inl TypeError
      else
        (case beam_value_to_avro_value value_type of
           Inl e \<Rightarrow> Inl e
         | Inr value_converter \<Rightarrow> Inr (map_converter value_converter)))"
| "beam_value_to_avro_value (FieldType nl (RowType (Schema ident fields))) =
     (case beam_field_converters fields of
        Inl e \<Rightarrow> Inl e
      | Inr converters \<Rightarrow> Inr (beam_row_converter (dict_of_items converters)))"
| "beam_value_to_avro_value (FieldType nl (LogicalType urn)) = Inr (\<lambda>value. Inr value)"
| "beam_value_to_avro_value (FieldType nl NotSet) = Inl ValueError"
| "beam_field_converters [] = Inr []"
| "beam_field_converters ((name, t) # rest) =
     (case beam_value_to_avro_value t of
        Inl e \<Rightarrow> Inl e
      | Inr convert \<Rightarrow>
          (case beam_field_converters rest of
             Inl e \<Rightarrow> Inl e
           | Inr converters \<Rightarrow> Inr ((name, convert) # converters)))"

section \<open>Top-level converters and the write transform\<close>

text \<open>
  \<^verbatim>\<open>beam_row_to_avro_dict\<close> passes the schema itself, not a field type, to
  \<^verbatim>\<open>beam_value_to_avro_value\<close>, whose first statement is
  \<^verbatim>\<open>beam_type.WhichOneof("type_info")\<close>.  Modelled from the spec: a row schema is an
  ordered list of named, typed fields with an identifier; it has no group of that name, and
  \<^verbatim>\<open>WhichOneof\<close> raises \<^verbatim>\<open>ValueError\<close> for a group the message does not
  declare.
\<close>

definition schema_WhichOneof :: "schema \<Rightarrow> string \<Rightarrow> error + string" where
  "schema_WhichOneof msg oneof_group = Inl ValueError"

definition beam_value_to_avro_value_of_schema :: "schema \<Rightarrow> error + converter" where
  "beam_value_to_avro_value_of_schema beam_schema =
     (case schema_WhichOneof beam_schema ''type_info'' of
        Inl e \<Rightarrow> Inl e
      | Inr which \<Rightarrow> Inl ValueError)"

text \<open>\<^verbatim>\<open>row[0]\<close>.\<close>

fun subscript_zero :: "pyval \<Rightarrow> error + pyval" where
  "subscript_zero (PList (x # xs)) = Inr x"
| "subscript_zero (PList []) = Inl IndexError"
| "subscript_zero (PStr (c # cs)) = Inr (PStr [c])"
| "subscript_zero (PStr []) = Inl IndexError"
| "subscript_zero (PBytes (b # bs)) = Inr (PInt (uint b))"
| "subscript_zero (PBytes []) = Inl IndexError"
| "subscript_zero (PDict kvs) =
     (case map_of kvs (PInt 0) of None \<Rightarrow> Inl KeyError | Some v \<Rightarrow> Inr v)"
| "subscript_zero _ = Inl TypeError"

text \<open>
  \<^verbatim>\<open>avro_dict_to_beam_row\<close> takes two parameters and, for a string, calls itself
  with one argument, \<^verbatim>\<open>avro_dict_to_beam_row({'type': avro_schema})\<close>: the call
  raises \<^verbatim>\<open>TypeError\<close> for the missing argument.  Subscripting a list or a number
  with \<^verbatim>\<open>'type'\<close> raises \<^verbatim>\<open>TypeError\<close> too.  The type-hint decoration of
  the result (\<^verbatim>\<open>with_output_types\<close>) returns the function it is given.
\<close>

fun avro_dict_to_beam_row :: "json \<Rightarrow> schema \<Rightarrow> error + converter" where
  "avro_dict_to_beam_row (JStr s) beam_schema = Inl TypeError"
| "avro_dict_to_beam_row (JDict d) beam_schema =
     (case map_of d ''type'' of
        None \<Rightarrow> Inl KeyError
      | Some t \<Rightarrow>
          if t = JStr ''record''
          then avro_value_to_beam_value (FieldType False (RowType beam_schema))
          else Inr (\<lambda>record. Inr (PRow [(''record'', record)])))"
| "avro_dict_to_beam_row _ beam_schema = Inl TypeError"

function (sequential) beam_row_to_avro_dict :: "json \<Rightarrow> schema \<Rightarrow> error + converter" where
  "beam_row_to_avro_dict (JStr s) beam_schema =
     beam_row_to_avro_dict (JDict [(''type'', JStr s)]) beam_schema"
| "beam_row_to_avro_dict (JDict d) beam_schema =
     (case map_of d ''type'' of
        None \<Rightarrow> Inl KeyError
      | Some t \<Rightarrow>
          if t = JStr ''record''
          then beam_value_to_avro_value (FieldType False (RowType beam_schema))
          else
            (case beam_value_to_avro_value_of_schema beam_schema of
               Inl e \<Rightarrow> Inl e
             | Inr convert \<Rightarrow>
                 Inr (\<lambda>row. case subscript_zero row of Inl e \<Rightarrow> Inl e | Inr v \<Rightarrow> convert v)))"
| "beam_row_to_avro_dict _ beam_schema = Inl TypeError"
  by pat_completeness auto
termination
  by (relation "measure (\<lambda>(j, s). case j of JStr _ \<Rightarrow> 1 | _ \<Rightarrow> 0)") auto





section \<open>Structure of a schema\<close>

text \<open>
  What two schemas are compared on when they are called structurally equivalent: the field
  names in their order, the nesting, and the nullability.  The shape of a schema forgets
  the name of a record, every other attribute, whether a primitive is written as a name or
  as a dict, and the order of the two members of a nullable union.  A document that is not
  a primitive, a nullable union, an array, a map or a record has no shape.
\<close>

datatype shape = ShPrim string | ShNullable shape | ShArray shape | ShMap shape
  | ShRecord "(string \<times> shape) list"

definition is_primitive :: "string \<Rightarrow> bool" where
  "is_primitive s = (map_of AVRO_PRIMITIVES_TO_BEAM_PRIMITIVES s \<noteq> None)"

function (sequential) shape_of :: "json \<Rightarrow> shape option"
  and shape_of_fields :: "json list \<Rightarrow> (string \<times> shape) list option" where
  "shape_of (JStr s) = (if is_primitive s then Some (ShPrim s) else None)"
| "shape_of (JNum n) = None"
| "shape_of (JList [a, b]) =
     (if a = JStr ''null'' then map_option ShNullable (shape_of b)
      else if b = JStr ''null'' then map_option ShNullable (shape_of a)
      else None)"
| "shape_of (JList l) = None"
| "shape_of (JDict d) =
     (case map_of d ''type'' of
        Some (JStr tn) \<Rightarrow>
          if is_primitive tn then Some (ShPrim tn)
          else if tn = ''array'' then
            (case map_of d ''items'' of
               Some t \<Rightarrow> map_option ShArray (shape_of t)
             | None \<Rightarrow> None)
          else if tn = ''map'' then
            (case map_of d ''values'' of
               Some t \<Rightarrow> map_option ShMap (shape_of t)
             | None \<Rightarrow> None)
          else if tn = ''record'' then
            (case map_of d ''fields'' of
               Some (JList fs) \<Rightarrow> map_option ShRecord (shape_of_fields fs)
             | _ \<Rightarrow> None)
          else None
      | _ \<Rightarrow> None)"
| "shape_of_fields [] = Some []"
| "shape_of_fields (JDict f # rest) =
     (case map_of f ''name'' of
        Some (JStr n) \<Rightarrow>
          (case map_of f ''type'' of
             Some t \<Rightarrow>
               (case shape_of t of
                  Some sh \<Rightarrow> map_option (\<lambda>r. (n, sh) # r) (shape_of_fields rest)
                | None \<Rightarrow> None)
           | None \<Rightarrow> None)
      | _ \<Rightarrow> None)"
| "shape_of_fields (_ # rest) = None"
  by pat_completeness auto
termination
proof (relation "measure (\<lambda>x. case x of Inl j \<Rightarrow> jweight j
                                 | Inr fs \<Rightarrow> sum_list (map jweight fs))", goal_cases)
  case 1 show ?case by simp
next
  case (2 a b) then show ?case by simp
next
  case (3 a b) then show ?case by simp
next
  case (4 d x tn t)
  then show ?case using jweight_map_of [of d "''items''" t] by simp
next
  case (5 d x tn t)
  then show ?case using jweight_map_of [of d "''values''" t] by simp
next
  case (6 d x tn y fs)
  then show ?case using jweight_map_of [of d "''fields''" "JList fs"] by simp
next
  case (7 f rest x n t)
  then show ?case using jweight_map_of [of f "''type''" t] by simp
next
  case (8 f rest x n t sh)
  then show ?case by simp
qed

text \<open>
  The schemas of the amended round trip: primitives with a direct mapping (by name, or as a
  dict of that type), two-member unions of \<open>null\<close> and a primitive name, arrays and
  records of such schemas.
\<close>

function (sequential) plain_schema :: "json \<Rightarrow> bool"
  and plain_fields :: "json list \<Rightarrow> bool" where
  "plain_schema (JStr s) = is_primitive s"
| "plain_schema (JNum n) = False"
| "plain_schema (JList [JStr a, JStr b]) =
     ((a = ''null'' \<and> is_primitive b) \<or> (b = ''null'' \<and> is_primitive a))"
| "plain_schema (JList l) = False"
| "plain_schema (JDict d) =
     (case map_of d ''type'' of
        Some (JStr tn) \<Rightarrow>
          if is_primitive tn then True
          else if tn = ''array'' then
            (case map_of d ''items'' of Some t \<Rightarrow> plain_schema t | None \<Rightarrow> False)
          else if tn = ''record'' then
            (case map_of d ''fields'' of Some (JList fs) \<Rightarrow> plain_fields fs | _ \<Rightarrow> False)
          else False
      | _ \<Rightarrow> False)"
| "plain_fields [] = True"
| "plain_fields (JDict f # rest) =
     (case map_of f ''name'' of
        Some (JStr n) \<Rightarrow>
          (case map_of f ''type'' of
             Some t \<Rightarrow> plain_schema t \<and> plain_fields rest
           | None \<Rightarrow> False)
      | _ \<Rightarrow> False)"
| "plain_fields (_ # rest) = False"
  by pat_completeness auto
termination
proof (relation "measure (\<lambda>x. case x of Inl j \<Rightarrow> jweight j
                                 | Inr fs \<Rightarrow> sum_list (map jweight fs))", goal_cases)
  case 1 show ?case by simp
next
  case (2 d x tn t)
  then show ?case using jweight_map_of [of d "''items''" t] by simp
next
  case (3 d x tn y fs)
  then show ?case using jweight_map_of [of d "''fields''" "JList fs"] by simp
next
  case (4 f rest x n t)
  then show ?case using jweight_map_of [of f "''type''" t] by simp
next
  case (5 f rest x n t)
  then show ?case by simp
qed


text \<open>The round trip through the row type system, for a type and for a top-level schema.\<close>

definition type_round_trip :: "json \<Rightarrow> error + json" where
  "type_round_trip j =
     (case avro_type_to_beam_type j of Inl e \<Rightarrow> Inl e | Inr t \<Rightarrow> beam_type_to_avro_type t)"

definition schema_round_trip :: "json \<Rightarrow> error + json" where
  "schema_round_trip j =
     (case avro_schema_to_beam_schema j of
        Inl e \<Rightarrow> Inl e
      | Inr beam_schema \<Rightarrow> beam_schema_to_avro_schema beam_schema)"

definition same_shape :: "json \<Rightarrow> json \<Rightarrow> bool" where
  "same_shape j j' = (shape_of j \<noteq> None \<and> shape_of j' = shape_of j)"

definition round_trips :: "json \<Rightarrow> bool" where
  "round_trips j = (\<exists>j'. type_round_trip j = Inr j' \<and> same_shape j j')"

section \<open>Scanning for the sync marker\<close>

text \<open>
  The file object \<^verbatim>\<open>f\<close>: its bytes and its current position.
  \<^verbatim>\<open>f.read(n)\<close> returns at most \<open>n\<close> bytes from the position on and advances by the
  number of bytes returned (none at or beyond the end); \<^verbatim>\<open>f.seek(d, os.SEEK_CUR)\<close>
  moves the position by \<open>d\<close>, which in the scan never leads below zero.
\<close>

record file_object =
  content :: "byte list"
  offset :: nat

definition f_read :: "nat \<Rightarrow> file_object \<Rightarrow> byte list \<times> file_object" where
  "f_read n f =
     (let data = take n (drop (offset f) (content f))
      in (data, f\<lparr>offset := offset f + length data\<rparr>))"

definition f_tell :: "file_object \<Rightarrow> int" where
  "f_tell f = int (offset f)"

definition f_seek :: "nat \<Rightarrow> file_object \<Rightarrow> file_object" where
  "f_seek target f = f\<lparr>offset := target\<rparr>"

definition f_seek_cur :: "int \<Rightarrow> file_object \<Rightarrow> file_object" where
  "f_seek_cur delta f = f\<lparr>offset := nat (int (offset f) + delta)\<rparr>"

text \<open>
  \<^verbatim>\<open>data.find(sync_marker)\<close>: the lowest index at which the marker starts in the
  data, or \<open>-1\<close>.
\<close>

fun bytes_find :: "byte list \<Rightarrow> byte list \<Rightarrow> int" where
  "bytes_find [] sub = (if sub = [] then 0 else - 1)"
| "bytes_find (x # xs) sub =
     (if take (length sub) (x # xs) = sub then 0
      else (let r = bytes_find xs sub in if r < 0 then - 1 else r + 1))"

text \<open>
  \<^verbatim>\<open>advance_file_past_next_sync_marker\<close> returns \<^verbatim>\<open>True\<close> from inside the
  loop and falls off its end otherwise, which returns \<^verbatim>\<open>None\<close>.  The
  \<^verbatim>\<open>while data:\<close> loop may run forever, so it is a partial function: \<open>None\<close>
  of the option type is a run that does not return.  \<open>scan_loop\<close> takes the state at the
  loop head: the file object and the data read last.
\<close>

datatype returned = ReturnTrue | ReturnNone

definition buf_size :: nat where
  "buf_size = 10000"

partial_function (option) scan_loop ::
  "byte list \<Rightarrow> file_object \<Rightarrow> byte list \<Rightarrow> (returned \<times> file_object) option" where
  "scan_loop sync_marker f data =
     (if data = [] then Some (ReturnNone, f)
      else
        (let pos = bytes_find data sync_marker in
         if pos \<ge> 0 then
           (let backtrack = int (length data) - pos - int (length sync_marker)
            in Some (ReturnTrue, f_seek_cur (- 1 * backtrack) f))
         else
           (let f1 = (if f_tell f \<ge> int (length sync_marker)
                      then f_seek_cur (- 1 * (int (length sync_marker) - 1)) f
                      else f)
            in scan_loop sync_marker (snd (f_read buf_size f1)) (fst (f_read buf_size f1)))))"

definition advance_file_past_next_sync_marker ::
  "file_object \<Rightarrow> byte list \<Rightarrow> (returned \<times> file_object) option" where
  "advance_file_past_next_sync_marker f sync_marker =
     scan_loop sync_marker (snd (f_read buf_size f)) (fst (f_read buf_size f))"

text \<open>The marker occurs, complete, at offset \<open>k\<close> of the bytes.\<close>

definition occurs_at :: "byte list \<Rightarrow> byte list \<Rightarrow> nat \<Rightarrow> bool" where
  "occurs_at bs sub k = (take (length sub) (drop k bs) = sub)"

text \<open>
  The states of the loop when the marker \<open>m\<close> does not occur in \<open>c\<close> from offset \<open>p\<close> on:
  the data was read at an offset \<open>q\<close> that is either at or after \<open>p\<close> or the offset
  \<open>length m - 1\<close> bytes before the end, and it is never empty.
\<close>

definition rescanning :: "byte list \<Rightarrow> byte list \<Rightarrow> nat \<Rightarrow> byte list \<Rightarrow> file_object \<Rightarrow> byte list \<Rightarrow> bool" where
  "rescanning c m p sm f data =
     (sm = m \<and> content f = c
      \<and> (\<exists>q. (p \<le> q \<or> q + length m = length c + 1) \<and> q < length c
              \<and> data = take buf_size (drop q c) \<and> offset f = q + length data))"

section \<open>Properties of the atomic value conversion\<close>

lemma uint_of_signed_32:
  fixes x :: int
  assumes "- (2 ^ 31) \<le> x" "x < 2 ^ 31"
  shows "uint (word_of_int x :: 32 word) = (if 0 \<le> x then x else x + 2 ^ 32)"
proof -
  have "uint (word_of_int x :: 32 word) = x mod 2 ^ 32"
    by (simp add: uint_word_of_int take_bit_eq_mod)
  also have "\<dots> = (if 0 \<le> x then x else x + 2 ^ 32)"
  proof (cases "0 \<le> x")
    case True
    with assms show ?thesis by simp
  next
    case False
    with assms have "(x + 2 ^ 32) mod 2 ^ 32 = x + 2 ^ 32"
      by (intro mod_pos_pos_trivial) simp_all
    with False show ?thesis by simp
  qed
  finally show ?thesis .
qed

lemma uint_of_signed_64:
  fixes x :: int
  assumes "- (2 ^ 63) \<le> x" "x < 2 ^ 63"
  shows "uint (word_of_int x :: 64 word) = (if 0 \<le> x then x else x + 2 ^ 64)"
proof -
  have "uint (word_of_int x :: 64 word) = x mod 2 ^ 64"
    by (simp add: uint_word_of_int take_bit_eq_mod)
  also have "\<dots> = (if 0 \<le> x then x else x + 2 ^ 64)"
  proof (cases "0 \<le> x")
    case True
    with assms show ?thesis by simp
  next
    case False
    with assms have "(x + 2 ^ 64) mod 2 ^ 64 = x + 2 ^ 64"
      by (intro mod_pos_pos_trivial) simp_all
    with False show ?thesis by simp
  qed
  finally show ?thesis .
qed

lemma sint_of_signed_32:
  fixes x :: int
  assumes "- (2 ^ 31) \<le> x" "x < 2 ^ 31"
  shows "sint (word_of_int x :: 32 word) = x"
  using assms by (simp add: sint_sbintrunc' signed_take_bit_int_eq_self)

lemma sint_of_signed_64:
  fixes x :: int
  assumes "- (2 ^ 63) \<le> x" "x < 2 ^ 63"
  shows "sint (word_of_int x :: 64 word) = x"
  using assms by (simp add: sint_sbintrunc' signed_take_bit_int_eq_self)

text \<open>
  C2.  For every signed 32-bit value \<open>x\<close> (an Avro int) the forward conversion yields
  the unsigned reading of the same bit pattern, a value in \<open>0..2^32-1\<close>, and the backward
  conversion of that value yields \<open>x\<close> again; likewise for signed 64-bit values (Avro
  long) and \<open>0..2^64-1\<close>.  For every other atomic kind both directions return the value
  they are given.
\<close>

theorem atomic_integer_round_trip:
  "(\<forall>x. - (2 ^ 31) \<le> x \<and> x < 2 ^ 31 \<longrightarrow>
      (\<exists>u. avro_atomic_value_to_beam_atomic_value ''int'' (PInt x) = Inr (PInt u)
         \<and> u = (if 0 \<le> x then x else x + 2 ^ 32) \<and> 0 \<le> u \<and> u < 2 ^ 32
         \<and> u = uint (word_of_int x :: 32 word)
         \<and> beam_atomic_value_to_avro_atomic_value ''int'' (PInt u) = Inr (PInt x)))
   \<and> (\<forall>x. - (2 ^ 63) \<le> x \<and> x < 2 ^ 63 \<longrightarrow>
      (\<exists>u. avro_atomic_value_to_beam_atomic_value ''long'' (PInt x) = Inr (PInt u)
         \<and> u = (if 0 \<le> x then x else x + 2 ^ 64) \<and> 0 \<le> u \<and> u < 2 ^ 64
         \<and> u = uint (word_of_int x :: 64 word)
         \<and> beam_atomic_value_to_avro_atomic_value ''long'' (PInt u) = Inr (PInt x)))
   \<and> (\<forall>k v. k \<noteq> ''int'' \<and> k \<noteq> ''long'' \<longrightarrow>
         avro_atomic_value_to_beam_atomic_value k v = Inr v
       \<and> beam_atomic_value_to_avro_atomic_value k v = Inr v)"
proof (intro conjI allI impI)
  fix x :: int
  assume r: "- (2 ^ 31) \<le> x \<and> x < 2 ^ 31"
  let ?u = "uint (word_of_int x :: 32 word)"
  have u: "?u = (if 0 \<le> x then x else x + 2 ^ 32)"
    using r by (intro uint_of_signed_32) simp_all
  have b: "0 \<le> ?u \<and> ?u < 2 ^ 32"
    using uint_lt2p [of "word_of_int x :: 32 word"] by simp
  have rt: "sint (word_of_int ?u :: 32 word) = x"
    using r by (simp add: sint_of_signed_32)
  show "\<exists>u. avro_atomic_value_to_beam_atomic_value ''int'' (PInt x) = Inr (PInt u)
         \<and> u = (if 0 \<le> x then x else x + 2 ^ 32) \<and> 0 \<le> u \<and> u < 2 ^ 32
         \<and> u = uint (word_of_int x :: 32 word)
         \<and> beam_atomic_value_to_avro_atomic_value ''int'' (PInt u) = Inr (PInt x)"
    using u b rt
    by (intro exI [of _ ?u])
      (simp add: avro_atomic_value_to_beam_atomic_value_def
        beam_atomic_value_to_avro_atomic_value_def)
next
  fix x :: int
  assume r: "- (2 ^ 63) \<le> x \<and> x < 2 ^ 63"
  let ?u = "uint (word_of_int x :: 64 word)"
  have u: "?u = (if 0 \<le> x then x else x + 2 ^ 64)"
    using r by (intro uint_of_signed_64) simp_all
  have b: "0 \<le> ?u \<and> ?u < 2 ^ 64"
    using uint_lt2p [of "word_of_int x :: 64 word"] by simp
  have rt: "sint (word_of_int ?u :: 64 word) = x"
    using r by (simp add: sint_of_signed_64)
  show "\<exists>u. avro_atomic_value_to_beam_atomic_value ''long'' (PInt x) = Inr (PInt u)
         \<and> u = (if 0 \<le> x then x else x + 2 ^ 64) \<and> 0 \<le> u \<and> u < 2 ^ 64
         \<and> u = uint (word_of_int x :: 64 word)
         \<and> beam_atomic_value_to_avro_atomic_value ''long'' (PInt u) = Inr (PInt x)"
    using u b rt
    by (intro exI [of _ ?u])
      (simp add: avro_atomic_value_to_beam_atomic_value_def
        beam_atomic_value_to_avro_atomic_value_def)
next
  fix k v
  assume "k \<noteq> ''int'' \<and> k \<noteq> ''long''"
  then show "avro_atomic_value_to_beam_atomic_value k v = Inr v"
    by (simp add: avro_atomic_value_to_beam_atomic_value_def)
next
  fix k v
  assume "k \<noteq> ''int'' \<and> k \<noteq> ''long''"
  then show "beam_atomic_value_to_avro_atomic_value k v = Inr v"
    by (simp add: beam_atomic_value_to_avro_atomic_value_def)
qed

theorem atomic_integer_round_trip_witness:
  "- (2 ^ 31) \<le> (- 1 :: int) \<and> (- 1 :: int) < 2 ^ 31
   \<and> avro_atomic_value_to_beam_atomic_value ''int'' (PInt (- 1)) = Inr (PInt 4294967295)
   \<and> beam_atomic_value_to_avro_atomic_value ''int'' (PInt 4294967295) = Inr (PInt (- 1))
   \<and> - (2 ^ 63) \<le> (- 1 :: int) \<and> (- 1 :: int) < 2 ^ 63
   \<and> avro_atomic_value_to_beam_atomic_value ''long'' (PInt (- 1))
       = Inr (PInt 18446744073709551615)
   \<and> beam_atomic_value_to_avro_atomic_value ''long'' (PInt 18446744073709551615)
       = Inr (PInt (- 1))
   \<and> ''bytes'' \<noteq> ''int'' \<and> ''bytes'' \<noteq> ''long''
   \<and> avro_atomic_value_to_beam_atomic_value ''bytes'' (PBytes [255]) = Inr (PBytes [255])
   \<and> beam_atomic_value_to_avro_atomic_value ''bytes'' (PBytes [255]) = Inr (PBytes [255])"
proof -
  have r32: "- (2 ^ 31) \<le> (- 1 :: int) \<and> (- 1 :: int) < 2 ^ 31" by simp
  have r64: "- (2 ^ 63) \<le> (- 1 :: int) \<and> (- 1 :: int) < 2 ^ 63" by simp
  have k: "''bytes'' \<noteq> ''int'' \<and> ''bytes'' \<noteq> ''long''" by simp
  note c1 = atomic_integer_round_trip [THEN conjunct1, rule_format, OF r32]
  note c2 = atomic_integer_round_trip [THEN conjunct2, THEN conjunct1, rule_format, OF r64]
  note c3 = atomic_integer_round_trip [THEN conjunct2, THEN conjunct2, rule_format, OF k,
      of "PBytes [255]"]
  from c1 obtain u where
    u: "avro_atomic_value_to_beam_atomic_value ''int'' (PInt (- 1)) = Inr (PInt u)"
      "u = (if 0 \<le> (- 1 :: int) then - 1 else - 1 + 2 ^ 32)"
      "beam_atomic_value_to_avro_atomic_value ''int'' (PInt u) = Inr (PInt (- 1))"
    by (elim exE conjE)
  from u(2) have u_val: "u = 4294967295" by simp
  from c2 obtain w where
    w: "avro_atomic_value_to_beam_atomic_value ''long'' (PInt (- 1)) = Inr (PInt w)"
      "w = (if 0 \<le> (- 1 :: int) then - 1 else - 1 + 2 ^ 64)"
      "beam_atomic_value_to_avro_atomic_value ''long'' (PInt w) = Inr (PInt (- 1))"
    by (elim exE conjE)
  from w(2) have w_val: "w = 18446744073709551615" by simp
  note i1 = c3 [THEN conjunct1]
  note i2 = c3 [THEN conjunct2]
  note a1 = u(1) [unfolded u_val]
  note a2 = u(3) [unfolded u_val]
  note b1 = w(1) [unfolded w_val]
  note b2 = w(3) [unfolded w_val]
  show ?thesis
    by (intro conjI r32 [THEN conjunct1] r32 [THEN conjunct2] r64 [THEN conjunct1]
        r64 [THEN conjunct2] k [THEN conjunct1] k [THEN conjunct2] a1 a2 b1 b2 i1 i2)
qed

section \<open>Properties of the schema and value converters\<close>

subsection \<open>Unions\<close>

lemma union_nullable_primitive:
  assumes "map_of AVRO_PRIMITIVES_TO_BEAM_PRIMITIVES p = Some a"
  shows "avro_union_type_to_beam_type [JStr ''null'', JStr p] = Inr (FieldType True (AtomicType a))"
    and "avro_union_type_to_beam_type [JStr p, JStr ''null''] = Inr (FieldType True (AtomicType a))"
proof -
  have n: "map_of AVRO_PRIMITIVES_TO_BEAM_PRIMITIVES ''null'' = None"
    by (simp add: AVRO_PRIMITIVES_TO_BEAM_PRIMITIVES_def)
  show "avro_union_type_to_beam_type [JStr ''null'', JStr p] = Inr (FieldType True (AtomicType a))"
    using assms n by (simp add: avro_union_type_to_beam_type_def)
  show "avro_union_type_to_beam_type [JStr p, JStr ''null''] = Inr (FieldType True (AtomicType a))"
    using assms by (simp add: avro_union_type_to_beam_type_def)
qed

lemma union_other_length_or_no_null:
  "length u \<noteq> 2 \<or> JStr ''null'' \<notin> set u \<Longrightarrow> avro_union_type_to_beam_type u = Inr any_type"
  by (auto simp: avro_union_type_to_beam_type_def)

lemma union_members_strings:
  "\<forall>m \<in> set u. \<exists>s. m = JStr s \<and> map_of AVRO_PRIMITIVES_TO_BEAM_PRIMITIVES s = None
     \<Longrightarrow> union_members u = Inr any_type"
  by (induction u) auto

text \<open>
  C7.  A two-member union of \<open>null\<close> and an array type: the membership test on the
  array type, a dict, raises \<open>TypeError\<close>, where the claim and the docstring promise
  the any type.
\<close>

theorem union_of_null_and_array_raises:
  "avro_union_type_to_beam_type
     [JStr ''null'', JDict [(''type'', JStr ''array''), (''items'', JStr ''int'')]]
   = Inl TypeError"
  by (simp add: avro_union_type_to_beam_type_def AVRO_PRIMITIVES_TO_BEAM_PRIMITIVES_def)

subsection \<open>Map keys\<close>

text \<open>
  C8.  For a map type whose key type is not the atomic string type, building the
  converter raises \<open>TypeError\<close> in both directions: the result is the error and no
  converter.
\<close>

theorem non_string_map_key_rejected:
  assumes "type_info key_type \<noteq> AtomicType STRING"
  shows "avro_value_to_beam_value (FieldType nl (MapType key_type value_type)) = Inl TypeError
       \<and> beam_value_to_avro_value (FieldType nl (MapType key_type value_type)) = Inl TypeError"
proof -
  from assms have "atomic_type_of key_type \<noteq> STRING"
    by (cases key_type rule: atomic_type_of.cases) simp_all
  then show ?thesis by simp
qed

theorem non_string_map_key_rejected_witness:
  "type_info (FieldType False (AtomicType INT32)) \<noteq> AtomicType STRING
   \<and> avro_value_to_beam_value
        (FieldType False (MapType (FieldType False (AtomicType INT32))
                                  (FieldType False (AtomicType STRING)))) = Inl TypeError
   \<and> beam_value_to_avro_value
        (FieldType False (MapType (FieldType False (AtomicType INT32))
                                  (FieldType False (AtomicType STRING)))) = Inl TypeError"
proof -
  have h: "type_info (FieldType False (AtomicType INT32)) \<noteq> AtomicType STRING" by simp
  note t = non_string_map_key_rejected [OF h, of False "FieldType False (AtomicType STRING)"]
  show ?thesis by (intro conjI h t [THEN conjunct1] t [THEN conjunct2])
qed

subsection \<open>Top-level schemas that are not records\<close>

lemma non_record_schema_wrapped:
  assumes "avro_type_to_beam_type s = Inr t" "\<not> is_record_dict s"
  shows "avro_schema_to_beam_schema s = Inr (Schema [] [(''record'', t)])"
  using assms by (simp add: avro_schema_to_beam_schema_def)

lemma non_record_dict_to_row:
  assumes "map_of d ''type'' = Some t" "t \<noteq> JStr ''record''"
  shows "\<exists>conv. avro_dict_to_beam_row (JDict d) bs = Inr conv
           \<and> (\<forall>v. conv v = Inr (PRow [(''record'', v)]))"
  using assms by simp

lemma non_record_row_to_dict_raises:
  assumes "map_of d ''type'' = Some t" "t \<noteq> JStr ''record''"
  shows "beam_row_to_avro_dict (JDict d) bs = Inl ValueError"
  using assms by (simp add: beam_value_to_avro_value_of_schema_def schema_WhichOneof_def)

text \<open>
  C9.  The top-level schema \<open>"int"\<close>: the schema conversion wraps it as the single
  field \<open>record\<close>, but building the row converter raises \<open>TypeError\<close> and building the
  inverse converter raises \<open>ValueError\<close>; the latter also for the dict form
  \<open>{"type": "int"}\<close>.
\<close>

theorem scalar_schema_converters_raise:
  "avro_schema_to_beam_schema (JStr ''int'')
     = Inr (Schema [] [(''record'', FieldType False (AtomicType INT32))])
   \<and> avro_dict_to_beam_row (JStr ''int'')
       (Schema [] [(''record'', FieldType False (AtomicType INT32))]) = Inl TypeError
   \<and> beam_row_to_avro_dict (JStr ''int'')
       (Schema [] [(''record'', FieldType False (AtomicType INT32))]) = Inl ValueError
   \<and> beam_row_to_avro_dict (JDict [(''type'', JStr ''int'')])
       (Schema [] [(''record'', FieldType False (AtomicType INT32))]) = Inl ValueError"
  by (simp add: avro_schema_to_beam_schema_def AVRO_PRIMITIVES_TO_BEAM_PRIMITIVES_def
      beam_value_to_avro_value_of_schema_def schema_WhichOneof_def)

subsection \<open>The write transform\<close>




subsection \<open>Schema round trip\<close>

lemma primitive_inverse:
  "map_of AVRO_PRIMITIVES_TO_BEAM_PRIMITIVES s = Some a
     \<Longrightarrow> map_of BEAM_PRIMITIVES_TO_AVRO_PRIMITIVES a = Some s"
  by (auto simp: AVRO_PRIMITIVES_TO_BEAM_PRIMITIVES_def BEAM_PRIMITIVES_TO_AVRO_PRIMITIVES_def
      split: if_splits)

lemma not_primitive_names:
  "\<not> is_primitive ''null''" "\<not> is_primitive ''array''" "\<not> is_primitive ''record''"
  "\<not> is_primitive ''map''" "\<not> is_primitive ''fixed''" "\<not> is_primitive ''enum''"
  by (simp_all add: is_primitive_def AVRO_PRIMITIVES_TO_BEAM_PRIMITIVES_def)

lemma round_trip_primitive_dict:
  assumes "is_primitive s" "map_of d ''type'' = Some (JStr s)"
  shows "type_round_trip (JDict d) = Inr (JDict [(''type'', JStr s)])"
proof -
  from assms(1) obtain a where a: "map_of AVRO_PRIMITIVES_TO_BEAM_PRIMITIVES s = Some a"
    by (auto simp: is_primitive_def)
  then have "avro_type_to_beam_type (JDict d) = Inr (FieldType False (AtomicType a))"
    using assms(2) by simp
  moreover have "beam_type_to_avro_type (FieldType False (AtomicType a))
      = Inr (JDict [(''type'', JStr s)])"
    using primitive_inverse [OF a] by simp
  ultimately show ?thesis by (simp add: type_round_trip_def)
qed

lemma round_trip_primitive_name:
  assumes "is_primitive s"
  shows "type_round_trip (JStr s) = Inr (JDict [(''type'', JStr s)])"
proof -
  have "type_round_trip (JStr s) = type_round_trip (JDict [(''type'', JStr s)])"
    by (simp add: type_round_trip_def)
  then show ?thesis using round_trip_primitive_dict [OF assms, of "[(''type'', JStr s)]"] by simp
qed

lemma round_trip_nullable:
  assumes "is_primitive p"
  shows "type_round_trip (JList [JStr ''null'', JStr p]) = Inr (JList [JStr ''null'', JStr p])"
    and "type_round_trip (JList [JStr p, JStr ''null'']) = Inr (JList [JStr ''null'', JStr p])"
proof -
  from assms obtain a where a: "map_of AVRO_PRIMITIVES_TO_BEAM_PRIMITIVES p = Some a"
    by (auto simp: is_primitive_def)
  have b: "beam_type_to_avro_type (FieldType True (AtomicType a))
      = Inr (JList [JStr ''null'', JStr p])"
    using primitive_inverse [OF a] by simp
  show "type_round_trip (JList [JStr ''null'', JStr p]) = Inr (JList [JStr ''null'', JStr p])"
    using union_nullable_primitive(1) [OF a] b by (simp add: type_round_trip_def)
  show "type_round_trip (JList [JStr p, JStr ''null'']) = Inr (JList [JStr ''null'', JStr p])"
    using union_nullable_primitive(2) [OF a] b by (simp add: type_round_trip_def)
qed

lemma shape_of_primitive_dict:
  "is_primitive s \<Longrightarrow> shape_of (JDict [(''type'', JStr s)]) = Some (ShPrim s)"
  by simp

lemma round_trips_fields:
  assumes "plain_fields fs"
    and "\<forall>f t. JDict f \<in> set fs \<longrightarrow> map_of f ''type'' = Some t \<longrightarrow> plain_schema t
            \<longrightarrow> round_trips t"
  shows "\<exists>bfs fs'. avro_fields_to_beam_fields fs = Inr bfs
           \<and> beam_fields_to_avro_fields bfs = Inr fs'
           \<and> shape_of_fields fs \<noteq> None \<and> shape_of_fields fs' = shape_of_fields fs"
  using assms
proof (induction fs)
  case Nil
  show ?case by simp
next
  case (Cons x fs)
  from Cons.prems(1) obtain f n t where
    x: "x = JDict f" and n: "map_of f ''name'' = Some (JStr n)"
    and t: "map_of f ''type'' = Some t" and pt: "plain_schema t" and pf: "plain_fields fs"
    by (cases x) (auto split: option.splits json.splits)
  from Cons.prems(2) x t pt have "round_trips t" by simp
  then obtain ft t' where
    ft: "avro_type_to_beam_type t = Inr ft" and t': "beam_type_to_avro_type ft = Inr t'"
    and sh: "shape_of t \<noteq> None" "shape_of t' = shape_of t"
    by (auto simp: round_trips_def same_shape_def type_round_trip_def split: sum.splits)
  have tail: "\<forall>f t. JDict f \<in> set fs \<longrightarrow> map_of f ''type'' = Some t \<longrightarrow> plain_schema t
            \<longrightarrow> round_trips t"
    using Cons.prems(2) by simp
  from Cons.IH [OF pf tail] obtain bfs fs' where
    r: "avro_fields_to_beam_fields fs = Inr bfs" "beam_fields_to_avro_fields bfs = Inr fs'"
      "shape_of_fields fs \<noteq> None" "shape_of_fields fs' = shape_of_fields fs"
    by blast
  have 1: "avro_fields_to_beam_fields (x # fs) = Inr ((n, ft) # bfs)"
    using x n t ft r(1) by simp
  have 2: "beam_fields_to_avro_fields ((n, ft) # bfs)
      = Inr (JDict [(''name'', JStr n), (''type'', t')] # fs')"
    using t' r(2) by simp
  have 3: "shape_of_fields (x # fs) \<noteq> None"
    using x n t sh(1) r(3) by auto
  have 4: "shape_of_fields (JDict [(''name'', JStr n), (''type'', t')] # fs')
      = shape_of_fields (x # fs)"
    using x n t sh r(3,4) by auto
  from 1 2 3 4 show ?case by blast
qed


lemma jweight_member: "x \<in> set xs \<Longrightarrow> jweight x \<le> sum_list (map jweight xs)"
  by (induction xs) auto

lemma plain_union_cases:
  assumes "plain_schema (JList l)"
  shows "\<exists>p. is_primitive p \<and> (l = [JStr ''null'', JStr p] \<or> l = [JStr p, JStr ''null''])"
  using assms by (rule plain_schema.elims(2)) auto

lemma plain_dict_cases:
  assumes "plain_schema (JDict d)"
  obtains (prim_case) tn where "map_of d ''type'' = Some (JStr tn)" "is_primitive tn"
  | (array_case) t where "map_of d ''type'' = Some (JStr ''array'')" "map_of d ''items'' = Some t"
      "plain_schema t"
  | (record_case) fs where "map_of d ''type'' = Some (JStr ''record'')"
      "map_of d ''fields'' = Some (JList fs)" "plain_fields fs"
  using assms by (auto split: option.splits json.splits if_splits)

lemma plain_schema_round_trips: "plain_schema j \<Longrightarrow> round_trips j"
proof (induction "jweight j" arbitrary: j rule: less_induct)
  case less
  show ?case
  proof (cases j)
    case (JStr s)
    with less.prems have p: "is_primitive s" by simp
    show ?thesis
      using round_trip_primitive_name [OF p] p
      by (simp add: JStr round_trips_def same_shape_def)
  next
    case (JNum n)
    with less.prems show ?thesis by simp
  next
    case (JList l)
    with less.prems obtain p where p: "is_primitive p"
      and l: "l = [JStr ''null'', JStr p] \<or> l = [JStr p, JStr ''null'']"
      using plain_union_cases by blast
    from p have np: "p \<noteq> ''null''" using not_primitive_names(1) by auto
    from l show ?thesis
    proof
      assume "l = [JStr ''null'', JStr p]"
      then show ?thesis
        using round_trip_nullable(1) [OF p] p
        by (simp add: JList round_trips_def same_shape_def)
    next
      assume "l = [JStr p, JStr ''null'']"
      then show ?thesis
        using round_trip_nullable(2) [OF p] p np
        by (simp add: JList round_trips_def same_shape_def)
    qed
  next
    case (JDict d)
    with less.prems have pd: "plain_schema (JDict d)" by simp
    from pd show ?thesis
    proof (cases rule: plain_dict_cases)
      case (prim_case tn)
      show ?thesis
        using round_trip_primitive_dict [OF prim_case(2) prim_case(1)] prim_case
        by (simp add: JDict round_trips_def same_shape_def)
    next
      case (array_case t)
      have "jweight t < jweight j"
        using jweight_map_of [OF array_case(2)] by (simp add: JDict)
      from less.hyps [OF this array_case(3)] obtain ft t' where
        ft: "avro_type_to_beam_type t = Inr ft" and t': "beam_type_to_avro_type ft = Inr t'"
        and sh: "shape_of t \<noteq> None" "shape_of t' = shape_of t"
        by (auto simp: round_trips_def same_shape_def type_round_trip_def split: sum.splits)
      have na: "map_of AVRO_PRIMITIVES_TO_BEAM_PRIMITIVES ''array'' = None"
        by (simp add: AVRO_PRIMITIVES_TO_BEAM_PRIMITIVES_def)
      have 1: "avro_type_to_beam_type (JDict d) = Inr (FieldType False (ArrayType ft))"
        using array_case(1,2) ft na by simp
      have 2: "beam_type_to_avro_type (FieldType False (ArrayType ft))
          = Inr (JDict [(''type'', JStr ''array''), (''items'', t')])"
        using t' by simp
      have 3: "shape_of (JDict d) = map_option ShArray (shape_of t)"
        using array_case(1,2) not_primitive_names(2) by simp
      have 4: "shape_of (JDict [(''type'', JStr ''array''), (''items'', t')])
          = map_option ShArray (shape_of t')"
        using not_primitive_names(2) by simp
      show ?thesis
        using 1 2 3 4 sh
        by (auto simp: JDict round_trips_def same_shape_def type_round_trip_def)
    next
      case (record_case fs)
      have w: "sum_list (map jweight fs) < jweight j"
        using jweight_map_of [OF record_case(2)] by (simp add: JDict)
      have el: "\<forall>f t. JDict f \<in> set fs \<longrightarrow> map_of f ''type'' = Some t \<longrightarrow> plain_schema t
            \<longrightarrow> round_trips t"
      proof (intro allI impI)
        fix f t
        assume f: "JDict f \<in> set fs" and t: "map_of f ''type'' = Some t" and pt: "plain_schema t"
        have "jweight (JDict f) \<le> sum_list (map jweight fs)"
          using f by (rule jweight_member)
        moreover have "jweight t < jweight (JDict f)"
          using jweight_map_of [OF t] by simp
        ultimately have "jweight t < jweight j" using w by simp
        from less.hyps [OF this pt] show "round_trips t" .
      qed
      from round_trips_fields [OF record_case(3) el] obtain bfs fs' where
        r: "avro_fields_to_beam_fields fs = Inr bfs" "beam_fields_to_avro_fields bfs = Inr fs'"
          "shape_of_fields fs \<noteq> None" "shape_of_fields fs' = shape_of_fields fs"
        by blast
      have nr: "map_of AVRO_PRIMITIVES_TO_BEAM_PRIMITIVES ''record'' = None"
        by (simp add: AVRO_PRIMITIVES_TO_BEAM_PRIMITIVES_def)
      have 1: "avro_type_to_beam_type (JDict d) = Inr (FieldType False (RowType (Schema [] bfs)))"
        using record_case(1,2) r(1) nr by simp
      have 2: "beam_type_to_avro_type (FieldType False (RowType (Schema [] bfs)))
          = Inr (JDict [(''type'', JStr ''record''), (''name'', JStr []), (''fields'', JList fs')])"
        using r(2) by simp
      have 3: "shape_of (JDict d) = map_option ShRecord (shape_of_fields fs)"
        using record_case(1,2) not_primitive_names by simp
      have 4: "shape_of (JDict [(''type'', JStr ''record''), (''name'', JStr []),
                               (''fields'', JList fs')])
          = map_option ShRecord (shape_of_fields fs')"
        using not_primitive_names by simp
      show ?thesis
        using 1 2 3 4 r(3,4)
        by (auto simp: JDict round_trips_def same_shape_def type_round_trip_def)
    qed
  qed
qed


lemma record_dict_gives_row_type:
  assumes "is_record_dict j" "avro_type_to_beam_type j = Inr ft"
  shows "\<exists>sch. ft = FieldType False (RowType sch)"
proof -
  from assms(1) obtain d where d: "j = JDict d" "map_of d ''type'' = Some (JStr ''record'')"
    by (cases j) auto
  have nr: "map_of AVRO_PRIMITIVES_TO_BEAM_PRIMITIVES ''record'' = None"
    by (simp add: AVRO_PRIMITIVES_TO_BEAM_PRIMITIVES_def)
  from assms(2) show ?thesis
    unfolding d(1) using d(2) nr
    by (auto split: option.splits json.splits sum.splits if_splits)
qed

lemma schema_round_trip_record:
  assumes "is_record_dict j"
  shows "schema_round_trip j = type_round_trip j"
proof (cases "avro_type_to_beam_type j")
  case (Inl e)
  then show ?thesis
    by (simp add: schema_round_trip_def type_round_trip_def avro_schema_to_beam_schema_def)
next
  case (Inr ft)
  from record_dict_gives_row_type [OF assms Inr] obtain sch where
    "ft = FieldType False (RowType sch)" by blast
  with Inr assms show ?thesis
    by (simp add: schema_round_trip_def type_round_trip_def avro_schema_to_beam_schema_def
        beam_schema_to_avro_schema_def)
qed

text \<open>
  C3, as stated, at two record schemas of the claimed class.  A field that is a nullable
  array: the union conversion raises \<open>TypeError\<close> on the array member.  A field that is a
  nullable reference to a nested record: the union becomes the any type, which the
  conversion back rejects with \<open>ValueError\<close>.
\<close>

theorem nullable_complex_field_round_trip_fails:
  "is_record_dict
     (JDict [(''type'', JStr ''record''), (''name'', JStr ''R''),
             (''fields'', JList [JDict [(''name'', JStr ''xs''),
               (''type'', JList [JStr ''null'',
                                 JDict [(''type'', JStr ''array''), (''items'', JStr ''int'')]])]])])
   \<and> shape_of
     (JDict [(''type'', JStr ''record''), (''name'', JStr ''R''),
             (''fields'', JList [JDict [(''name'', JStr ''xs''),
               (''type'', JList [JStr ''null'',
                                 JDict [(''type'', JStr ''array''), (''items'', JStr ''int'')]])]])])
     = Some (ShRecord [(''xs'', ShNullable (ShArray (ShPrim ''int'')))])
   \<and> schema_round_trip
     (JDict [(''type'', JStr ''record''), (''name'', JStr ''R''),
             (''fields'', JList [JDict [(''name'', JStr ''xs''),
               (''type'', JList [JStr ''null'',
                                 JDict [(''type'', JStr ''array''), (''items'', JStr ''int'')]])]])])
     = Inl TypeError
   \<and> avro_schema_to_beam_schema
     (JDict [(''type'', JStr ''record''), (''name'', JStr ''Outer''),
             (''fields'', JList
               [JDict [(''name'', JStr ''a''),
                       (''type'', JDict [(''type'', JStr ''record''), (''name'', JStr ''User''),
                          (''fields'', JList [JDict [(''name'', JStr ''x''),
                                                     (''type'', JStr ''int'')]])])],
                JDict [(''name'', JStr ''b''),
                       (''type'', JList [JStr ''null'', JStr ''User''])]])])
     = Inr (Schema []
             [(''a'', FieldType False
                        (RowType (Schema [] [(''x'', FieldType False (AtomicType INT32))]))),
              (''b'', any_type)])
   \<and> beam_schema_to_avro_schema
       (Schema []
             [(''a'', FieldType False
                        (RowType (Schema [] [(''x'', FieldType False (AtomicType INT32))]))),
              (''b'', any_type)])
     = Inl ValueError"
  by (simp add: schema_round_trip_def avro_schema_to_beam_schema_def
      beam_schema_to_avro_schema_def avro_union_type_to_beam_type_def any_type_def
      is_primitive_def AVRO_PRIMITIVES_TO_BEAM_PRIMITIVES_def
      BEAM_PRIMITIVES_TO_AVRO_PRIMITIVES_def)

text \<open>
  C3, amended.  For every record schema built only from the primitives with a direct
  mapping (by name or as a dict with that type), nested records, arrays and two-member
  unions of \<open>null\<close> with a primitive name, converting to a row schema and back succeeds, and
  the result has the shape of the original: the same field names in the same order, the
  same nesting and the same nullability.
\<close>

theorem plain_record_schema_round_trip:
  assumes "is_record_dict S" "plain_schema S"
  shows "\<exists>S'. schema_round_trip S = Inr S' \<and> shape_of S \<noteq> None \<and> shape_of S' = shape_of S"
  using plain_schema_round_trips [OF assms(2)] schema_round_trip_record [OF assms(1)]
  by (auto simp: round_trips_def same_shape_def)

theorem plain_record_schema_round_trip_witness:
  "is_record_dict
     (JDict [(''type'', JStr ''record''), (''name'', JStr ''User''),
             (''fields'', JList
               [JDict [(''name'', JStr ''name''), (''type'', JStr ''string'')],
                JDict [(''name'', JStr ''favorite_number''),
                       (''type'', JList [JStr ''int'', JStr ''null''])],
                JDict [(''name'', JStr ''tags''),
                       (''type'', JDict [(''type'', JStr ''array''),
                                         (''items'', JStr ''string'')])]])])
   \<and> plain_schema
     (JDict [(''type'', JStr ''record''), (''name'', JStr ''User''),
             (''fields'', JList
               [JDict [(''name'', JStr ''name''), (''type'', JStr ''string'')],
                JDict [(''name'', JStr ''favorite_number''),
                       (''type'', JList [JStr ''int'', JStr ''null''])],
                JDict [(''name'', JStr ''tags''),
                       (''type'', JDict [(''type'', JStr ''array''),
                                         (''items'', JStr ''string'')])]])])
   \<and> schema_round_trip
     (JDict [(''type'', JStr ''record''), (''name'', JStr ''User''),
             (''fields'', JList
               [JDict [(''name'', JStr ''name''), (''type'', JStr ''string'')],
                JDict [(''name'', JStr ''favorite_number''),
                       (''type'', JList [JStr ''int'', JStr ''null''])],
                JDict [(''name'', JStr ''tags''),
                       (''type'', JDict [(''type'', JStr ''array''),
                                         (''items'', JStr ''string'')])]])])
     = Inr
     (JDict [(''type'', JStr ''record''), (''name'', JStr []),
             (''fields'', JList
               [JDict [(''name'', JStr ''name''), (''type'', JDict [(''type'', JStr ''string'')])],
                JDict [(''name'', JStr ''favorite_number''),
                       (''type'', JList [JStr ''null'', JStr ''int''])],
                JDict [(''name'', JStr ''tags''),
                       (''type'', JDict [(''type'', JStr ''array''),
                                         (''items'', JDict [(''type'', JStr ''string'')])])]])])
   \<and> shape_of
     (JDict [(''type'', JStr ''record''), (''name'', JStr []),
             (''fields'', JList
               [JDict [(''name'', JStr ''name''), (''type'', JDict [(''type'', JStr ''string'')])],
                JDict [(''name'', JStr ''favorite_number''),
                       (''type'', JList [JStr ''null'', JStr ''int''])],
                JDict [(''name'', JStr ''tags''),
                       (''type'', JDict [(''type'', JStr ''array''),
                                         (''items'', JDict [(''type'', JStr ''string'')])])]])])
     = Some (ShRecord [(''name'', ShPrim ''string''),
                       (''favorite_number'', ShNullable (ShPrim ''int'')),
                       (''tags'', ShArray (ShPrim ''string''))])"
proof -
  let ?S = "JDict [(''type'', JStr ''record''), (''name'', JStr ''User''),
             (''fields'', JList
               [JDict [(''name'', JStr ''name''), (''type'', JStr ''string'')],
                JDict [(''name'', JStr ''favorite_number''),
                       (''type'', JList [JStr ''int'', JStr ''null''])],
                JDict [(''name'', JStr ''tags''),
                       (''type'', JDict [(''type'', JStr ''array''),
                                         (''items'', JStr ''string'')])]])]"
  let ?R = "JDict [(''type'', JStr ''record''), (''name'', JStr []),
             (''fields'', JList
               [JDict [(''name'', JStr ''name''), (''type'', JDict [(''type'', JStr ''string'')])],
                JDict [(''name'', JStr ''favorite_number''),
                       (''type'', JList [JStr ''null'', JStr ''int''])],
                JDict [(''name'', JStr ''tags''),
                       (''type'', JDict [(''type'', JStr ''array''),
                                         (''items'', JDict [(''type'', JStr ''string'')])])]])]"
  have r: "is_record_dict ?S" by simp
  have p: "plain_schema ?S"
    by (simp add: is_primitive_def AVRO_PRIMITIVES_TO_BEAM_PRIMITIVES_def)
  have s: "shape_of ?S = Some (ShRecord [(''name'', ShPrim ''string''),
                       (''favorite_number'', ShNullable (ShPrim ''int'')),
                       (''tags'', ShArray (ShPrim ''string''))])"
    by (simp add: is_primitive_def AVRO_PRIMITIVES_TO_BEAM_PRIMITIVES_def)
  have e: "schema_round_trip ?S = Inr ?R"
    by (simp add: schema_round_trip_def avro_schema_to_beam_schema_def
        beam_schema_to_avro_schema_def avro_union_type_to_beam_type_def
        AVRO_PRIMITIVES_TO_BEAM_PRIMITIVES_def BEAM_PRIMITIVES_TO_AVRO_PRIMITIVES_def)
  from plain_record_schema_round_trip [OF r p] obtain S' where
    t: "schema_round_trip ?S = Inr S'" "shape_of S' = shape_of ?S"
    by (elim exE conjE)
  from t(1) e have "S' = ?R" by simp
  with t(2) s have "shape_of ?R = Some (ShRecord [(''name'', ShPrim ''string''),
                       (''favorite_number'', ShNullable (ShPrim ''int'')),
                       (''tags'', ShArray (ShPrim ''string''))])"
    by simp
  with r p e show ?thesis by (intro conjI)
qed

section \<open>Properties of the marker scan\<close>

lemma occurs_at_length: "sub \<noteq> [] \<Longrightarrow> occurs_at bs sub k \<Longrightarrow> k + length sub \<le> length bs"
proof -
  assume a: "sub \<noteq> []" "occurs_at bs sub k"
  then have "length (take (length sub) (drop k bs)) = length sub"
    by (simp add: occurs_at_def)
  then have "length sub \<le> length bs - k" by simp
  with a(1) show ?thesis by (cases "k < length bs") auto
qed

lemma bytes_find_range: "bytes_find d sub = - 1 \<or> 0 \<le> bytes_find d sub"
  by (induction d) (auto simp: Let_def)

lemma bytes_find_none:
  "sub \<noteq> [] \<Longrightarrow> bytes_find d sub < 0 \<Longrightarrow> \<not> occurs_at d sub j"
proof (induction d arbitrary: j)
  case Nil
  then show ?case by (simp add: occurs_at_def)
next
  case (Cons x xs)
  from Cons.prems(2) have h: "take (length sub) (x # xs) \<noteq> sub" "bytes_find xs sub < 0"
    by (auto simp: Let_def split: if_splits)
  show ?case
  proof (cases j)
    case 0
    with h(1) show ?thesis by (simp add: occurs_at_def)
  next
    case (Suc j')
    with Cons.IH [OF Cons.prems(1) h(2), of j'] show ?thesis by (simp add: occurs_at_def)
  qed
qed

lemma bytes_find_first:
  "sub \<noteq> [] \<Longrightarrow> occurs_at d sub k \<Longrightarrow> (\<forall>j<k. \<not> occurs_at d sub j) \<Longrightarrow> bytes_find d sub = int k"
proof (induction d arbitrary: k)
  case Nil
  then show ?case by (simp add: occurs_at_def)
next
  case (Cons x xs)
  show ?case
  proof (cases k)
    case 0
    with Cons.prems(2) show ?thesis by (simp add: occurs_at_def)
  next
    case (Suc k')
    with Cons.prems(3) have n0: "\<not> occurs_at (x # xs) sub 0" by simp
    have o: "occurs_at xs sub k'" using Cons.prems(2) Suc by (simp add: occurs_at_def)
    have f: "\<forall>j<k'. \<not> occurs_at xs sub j"
    proof (intro allI impI)
      fix j assume "j < k'"
      then have "Suc j < k" using Suc by simp
      with Cons.prems(3) have "\<not> occurs_at (x # xs) sub (Suc j)" by blast
      then show "\<not> occurs_at xs sub j" by (simp add: occurs_at_def)
    qed
    from Cons.IH [OF Cons.prems(1) o f] have "bytes_find xs sub = int k'" .
    with n0 Suc show ?thesis by (simp add: occurs_at_def)
  qed
qed

lemma occurs_at_take:
  "j + length sub \<le> n \<Longrightarrow> occurs_at (take n d) sub j = occurs_at d sub j"
proof -
  assume a: "j + length sub \<le> n"
  have "take (length sub) (drop j (take n d)) = take (length sub) (take (n - j) (drop j d))"
    by (simp add: drop_take)
  also have "\<dots> = take (length sub) (drop j d)"
    using a by (simp add: min_def)
  finally show ?thesis by (simp add: occurs_at_def)
qed

lemma occurs_at_drop: "occurs_at (drop n d) sub j = occurs_at d sub (n + j)"
  by (simp add: occurs_at_def add.commute)

lemma bytes_find_some:
  "0 \<le> bytes_find d sub \<Longrightarrow> occurs_at d sub (nat (bytes_find d sub))"
proof (induction d)
  case Nil
  then show ?case by (auto simp: occurs_at_def split: if_splits)
next
  case (Cons x xs)
  show ?case
  proof (cases "take (length sub) (x # xs) = sub")
    case True
    then show ?thesis by (simp add: occurs_at_def)
  next
    case False
    with Cons.prems have r: "0 \<le> bytes_find xs sub"
      by (auto simp: Let_def split: if_splits)
    from Cons.IH [OF r] have "occurs_at xs sub (nat (bytes_find xs sub))" .
    moreover have "bytes_find (x # xs) sub = bytes_find xs sub + 1"
      using False r by (simp add: Let_def)
    moreover have "nat (bytes_find xs sub + 1) = Suc (nat (bytes_find xs sub))"
      using r by simp
    ultimately show ?thesis by (simp add: occurs_at_def)
  qed
qed

lemma scan_loop_found:
  assumes "bytes_find data sub = int i" "data \<noteq> []" "i + length sub \<le> length data"
  shows "scan_loop sub \<lparr>content = c, offset = p + length data\<rparr> data
       = Some (ReturnTrue, \<lparr>content = c, offset = p + i + length sub\<rparr>)"
proof -
  have "nat (int (p + length data) + - 1 * (int (length data) - int i - int (length sub)))
      = p + i + length sub"
    using assms(3) by simp
  then show ?thesis
    using assms(1,2)
    by (subst scan_loop.simps) (simp add: Let_def f_seek_cur_def)
qed

lemma scan_loop_next:
  assumes "bytes_find data sub < 0" "data \<noteq> []" "length sub \<le> p + length data" "sub \<noteq> []"
  shows "scan_loop sub \<lparr>content = c, offset = p + length data\<rparr> data
       = scan_loop sub
           \<lparr>content = c,
            offset = (p + length data + 1 - length sub)
                     + length (take buf_size (drop (p + length data + 1 - length sub) c))\<rparr>
           (take buf_size (drop (p + length data + 1 - length sub) c))"
proof -
  have "nat (int (p + length data) + - 1 * (int (length sub) - 1))
      = p + length data + 1 - length sub"
    using assms(3) by simp
  then show ?thesis
    using assms(1,2,3)
    by (subst scan_loop.simps) (simp add: Let_def f_seek_cur_def f_tell_def f_read_def)
qed

lemma scan_loop_finds:
  assumes "sub \<noteq> []" "length sub \<le> buf_size"
  shows "occurs_at c sub k \<Longrightarrow> p \<le> k \<Longrightarrow> (\<forall>j. p \<le> j \<and> j < k \<longrightarrow> \<not> occurs_at c sub j)
     \<Longrightarrow> scan_loop sub \<lparr>content = c, offset = p + length (take buf_size (drop p c))\<rparr>
           (take buf_size (drop p c))
         = Some (ReturnTrue, \<lparr>content = c, offset = k + length sub\<rparr>)"
proof (induction "k - p" arbitrary: p rule: less_induct)
  case less
  let ?L = "length sub"
  let ?rest = "drop p c"
  let ?data = "take buf_size ?rest"
  define i where "i = k - p"
  have k: "k = p + i" using less.prems(2) by (simp add: i_def)
  have occ: "occurs_at ?rest sub i"
    using less.prems(1) by (simp add: occurs_at_drop k)
  have first: "\<forall>j<i. \<not> occurs_at ?rest sub j"
    using less.prems(3) by (simp add: occurs_at_drop k)
  have len: "i + ?L \<le> length ?rest"
    using occurs_at_length [OF assms(1) occ] .
  have L: "0 < ?L" using assms(1) by simp
  have ne: "?data \<noteq> []"
  proof
    assume "?data = []"
    then have "buf_size = 0 \<or> ?rest = []" by (simp add: take_eq_Nil)
    with len L assms(2) show False by auto
  qed
  show ?case
  proof (cases "i + ?L \<le> buf_size")
    case True
    have "occurs_at ?data sub i"
      using occ True by (simp add: occurs_at_take)
    moreover have "\<forall>j<i. \<not> occurs_at ?data sub j"
    proof (intro allI impI)
      fix j assume j: "j < i"
      then have "j + ?L \<le> buf_size" using True by simp
      then show "\<not> occurs_at ?data sub j"
        using first j by (simp add: occurs_at_take)
    qed
    ultimately have f: "bytes_find ?data sub = int i"
      using bytes_find_first [OF assms(1)] by blast
    have "i + ?L \<le> length ?data" using True len by simp
    from scan_loop_found [OF f ne this, of c p] show ?thesis by (simp add: k)
  next
    case False
    have neg: "bytes_find ?data sub < 0"
    proof (rule ccontr)
      assume "\<not> bytes_find ?data sub < 0"
      then have nn: "0 \<le> bytes_find ?data sub" by simp
      define j where "j = nat (bytes_find ?data sub)"
      from bytes_find_some [OF nn] have oj: "occurs_at ?data sub j" by (simp add: j_def)
      from occurs_at_length [OF assms(1) oj] have jl: "j + ?L \<le> buf_size" by simp
      then have "occurs_at ?rest sub j" using oj by (simp add: occurs_at_take)
      moreover have "j < i" using jl False by simp
      ultimately show False using first by blast
    qed
    have full: "length ?data = buf_size" using False len by simp
    have tl: "?L \<le> p + length ?data" using full assms(2) by simp
    define p' where "p' = p + length ?data + 1 - ?L"
    have p': "p' = p + (buf_size + 1 - ?L)" using full assms(2) by (simp add: p'_def)
    have step: "0 < buf_size + 1 - ?L" using assms(2) by simp
    have i_ge: "buf_size + 1 - ?L \<le> i" using False by simp
    have 1: "p' \<le> k" using p' i_ge k by simp
    have 2: "\<forall>j. p' \<le> j \<and> j < k \<longrightarrow> \<not> occurs_at c sub j"
      using less.prems(3) p' by simp
    have 3: "k - p' < k - p" using p' step i_ge k by simp
    from less.hyps [OF 3 less.prems(1) 1 2]
    have "scan_loop sub \<lparr>content = c, offset = p' + length (take buf_size (drop p' c))\<rparr>
           (take buf_size (drop p' c))
         = Some (ReturnTrue, \<lparr>content = c, offset = k + ?L\<rparr>)" .
    then show ?thesis
      using scan_loop_next [OF neg ne tl assms(1), of c] by (simp add: p'_def)
  qed
qed

lemma no_marker_in_padding:
  assumes "j < n" "m \<noteq> []" "hd m \<noteq> x"
  shows "\<not> occurs_at (replicate n x @ r) m j"
proof
  assume o: "occurs_at (replicate n x @ r) m j"
  from assms(1) obtain k where k: "n - j = Suc k" by (cases "n - j") auto
  have "drop j (replicate n x @ r) = x # (replicate k x @ r)"
    using assms(1) k by simp
  moreover from assms(2) obtain l where l: "length m = Suc l" by (cases m) auto
  ultimately have "take (length m) (drop j (replicate n x @ r)) = x # take l (replicate k x @ r)"
    by simp
  with o have "m = x # take l (replicate k x @ r)" by (simp add: occurs_at_def)
  then have "hd m = x" by (metis list.sel(1))
  with assms(3) show False by simp
qed

text \<open>
  C5.  When the marker, not empty and no longer than the read buffer, occurs in the stream
  at an offset \<open>k\<close> at or after the current position and at no earlier offset from the
  current position on, the scan returns true and leaves the stream positioned at
  \<open>k + length sync_marker\<close>, the end of that first occurrence, wherever the occurrence
  lies relative to the boundaries of the buffered reads.
\<close>

theorem advance_lands_after_first_marker:
  assumes "sync_marker \<noteq> []" "length sync_marker \<le> buf_size"
    and "offset f \<le> k" "occurs_at (content f) sync_marker k"
    and "\<forall>j. offset f \<le> j \<and> j < k \<longrightarrow> \<not> occurs_at (content f) sync_marker j"
  shows "advance_file_past_next_sync_marker f sync_marker
       = Some (ReturnTrue, f\<lparr>offset := k + length sync_marker\<rparr>)"
proof -
  have "advance_file_past_next_sync_marker f sync_marker
      = scan_loop sync_marker
          \<lparr>content = content f,
           offset = offset f + length (take buf_size (drop (offset f) (content f)))\<rparr>
          (take buf_size (drop (offset f) (content f)))"
    by (cases f) (simp add: advance_file_past_next_sync_marker_def f_read_def Let_def)
  also have "\<dots> = Some (ReturnTrue, \<lparr>content = content f, offset = k + length sync_marker\<rparr>)"
    using scan_loop_finds [OF assms(1,2) assms(4,3,5)] .
  finally show ?thesis by (cases f) simp
qed

theorem advance_lands_after_first_marker_witness:
  "replicate 16 (1 :: byte) \<noteq> []
   \<and> length (replicate 16 (1 :: byte)) \<le> buf_size
   \<and> offset \<lparr>content = replicate 9990 0 @ replicate 16 1 @ [0], offset = 0\<rparr> \<le> 9990
   \<and> occurs_at (content \<lparr>content = replicate 9990 0 @ replicate 16 1 @ [0], offset = 0\<rparr>)
        (replicate 16 1) 9990
   \<and> buf_size < 9990 + length (replicate 16 (1 :: byte))
   \<and> advance_file_past_next_sync_marker
         \<lparr>content = replicate 9990 0 @ replicate 16 1 @ [0], offset = 0\<rparr> (replicate 16 1)
       = Some (ReturnTrue,
               \<lparr>content = replicate 9990 0 @ replicate 16 1 @ [0], offset = 10006\<rparr>)"
proof -
  let ?m = "replicate 16 (1 :: byte)"
  let ?f = "\<lparr>content = replicate 9990 0 @ ?m @ [0], offset = 0\<rparr>"
  have 1: "?m \<noteq> []" by simp
  have 2: "length ?m \<le> buf_size" by (simp add: buf_size_def)
  have 3: "offset ?f \<le> 9990" by simp
  have 4: "occurs_at (content ?f) ?m 9990" by (simp add: occurs_at_def)
  have 5: "\<forall>j. offset ?f \<le> j \<and> j < 9990 \<longrightarrow> \<not> occurs_at (content ?f) ?m j"
  proof (intro allI impI)
    fix j assume "offset ?f \<le> j \<and> j < 9990"
    then have "j < 9990" by simp
    then have "\<not> occurs_at (replicate 9990 0 @ (?m @ [0])) ?m j"
      by (rule no_marker_in_padding) simp_all
    then show "\<not> occurs_at (content ?f) ?m j" by simp
  qed
  have 6: "buf_size < 9990 + length ?m" by (simp add: buf_size_def)
  from advance_lands_after_first_marker [OF 1 2 3 4 5]
  have 7: "advance_file_past_next_sync_marker ?f ?m
       = Some (ReturnTrue, \<lparr>content = replicate 9990 0 @ ?m @ [0], offset = 10006\<rparr>)"
    by simp
  show ?thesis by (intro conjI 1 2 3 4 6 7)
qed

lemma rescanning_step:
  assumes L: "2 \<le> length m" "length m \<le> buf_size" "length m \<le> length c"
    and none: "\<forall>j\<ge>p. \<not> occurs_at c m j"
    and inv: "rescanning c m p sm f data"
  shows "data \<noteq> [] \<and> bytes_find data sm < 0 \<and> f_tell f \<ge> int (length sm)
       \<and> rescanning c m p sm
           (snd (f_read buf_size (f_seek_cur (- 1 * (int (length sm) - 1)) f)))
           (fst (f_read buf_size (f_seek_cur (- 1 * (int (length sm) - 1)) f)))"
proof -
  from inv obtain q where sm: "sm = m" and c: "content f = c"
    and q: "p \<le> q \<or> q + length m = length c + 1" "q < length c"
    and d: "data = take buf_size (drop q c)" and o: "offset f = q + length data"
    by (auto simp: rescanning_def)
  have B: "0 < buf_size" using L by simp
  have m: "m \<noteq> []" using L(1) by auto
  have ne: "data \<noteq> []" using q(2) B by (simp add: d take_eq_Nil)
  have len: "length data = min (length c - q) buf_size" by (simp add: d)
  have neg: "bytes_find data m < 0"
  proof (rule ccontr)
    assume "\<not> bytes_find data m < 0"
    then have nn: "0 \<le> bytes_find data m" by simp
    define j where "j = nat (bytes_find data m)"
    from bytes_find_some [OF nn] have oj: "occurs_at data m j" by (simp add: j_def)
    from occurs_at_length [OF m oj] have jl: "j + length m \<le> length data" .
    then have "j + length m \<le> buf_size" using len by simp
    then have "occurs_at (drop q c) m j" using oj by (simp add: d occurs_at_take)
    then have oc: "occurs_at c m (q + j)" by (simp add: occurs_at_drop)
    from q(1) show False
    proof
      assume "p \<le> q"
      then have "p \<le> q + j" by simp
      with none oc show False by blast
    next
      assume "q + length m = length c + 1"
      then have "length c - q < length m" using L(1) by simp
      with jl len show False by simp
    qed
  qed
  have tell: "int (length m) \<le> f_tell f"
  proof (cases "length c - q \<le> buf_size")
    case True
    then have "offset f = length c" using o len q(2) by simp
    with L(3) show ?thesis by (simp add: f_tell_def)
  next
    case False
    then have "offset f = q + buf_size" using o len by simp
    with L(2) show ?thesis by (simp add: f_tell_def)
  qed
  define q' where "q' = offset f + 1 - length m"
  have seek: "f_seek_cur (- 1 * (int (length m) - 1)) f = f\<lparr>offset := q'\<rparr>"
    using tell by (simp add: f_seek_cur_def f_tell_def q'_def nat_diff_distrib')
  have q'1: "p \<le> q' \<or> q' + length m = length c + 1"
  proof (cases "length c - q \<le> buf_size")
    case True
    then have "offset f = length c" using o len q(2) by simp
    then show ?thesis using L(3) by (simp add: q'_def)
  next
    case False
    then have of: "offset f = q + buf_size" "q + buf_size < length c" using o len by simp_all
    from q(1) show ?thesis
    proof
      assume "p \<le> q"
      then show ?thesis using of L(2) by (simp add: q'_def)
    next
      assume "q + length m = length c + 1"
      with of L show ?thesis by simp
    qed
  qed
  have ol: "offset f \<le> length c" using o len q(2) by simp
  have q'2: "q' < length c" using ol L(1) tell by (simp add: q'_def f_tell_def)
  have "rescanning c m p sm (snd (f_read buf_size (f\<lparr>offset := q'\<rparr>)))
          (fst (f_read buf_size (f\<lparr>offset := q'\<rparr>)))"
    unfolding rescanning_def
    using sm c q'1 q'2 by (auto simp: f_read_def Let_def intro!: exI [of _ q'])
  with seek sm have r: "rescanning c m p m
           (snd (f_read buf_size (f_seek_cur (- 1 * (int (length m) - 1)) f)))
           (fst (f_read buf_size (f_seek_cur (- 1 * (int (length m) - 1)) f)))"
    by simp
  show ?thesis unfolding sm using ne neg tell r by (intro conjI)
qed

lemma scan_loop_rescanning_never_returns:
  assumes L: "2 \<le> length m" "length m \<le> buf_size" "length m \<le> length c"
    and none: "\<forall>j\<ge>p. \<not> occurs_at c m j"
    and ret: "scan_loop sm f data = Some y"
  shows "\<not> rescanning c m p sm f data"
proof (rule scan_loop.raw_induct
    [where P = "\<lambda>sm f data y. \<not> rescanning c m p sm f data", OF _ ret], goal_cases)
  case (1 scan_loop' sm f data y)
  show ?case
  proof
    assume inv: "rescanning c m p sm f data"
    note s = rescanning_step [OF L none inv]
    from 1(2) s have a:
      "scan_loop' sm (snd (f_read buf_size (f_seek_cur (- 1 * (int (length sm) - 1)) f)))
         (fst (f_read buf_size (f_seek_cur (- 1 * (int (length sm) - 1)) f))) = Some y"
      by (simp add: Let_def)
    from 1(1) [OF a] s show False by simp
  qed
qed

lemma advance_never_returns:
  assumes L: "2 \<le> length m" "length m \<le> buf_size" "length m \<le> length (content f)"
    and none: "\<forall>j\<ge>offset f. \<not> occurs_at (content f) m j"
    and rem: "offset f < length (content f)"
  shows "advance_file_past_next_sync_marker f m = None"
proof (rule ccontr)
  assume "advance_file_past_next_sync_marker f m \<noteq> None"
  then obtain y where
    y: "scan_loop m (snd (f_read buf_size f)) (fst (f_read buf_size f)) = Some y"
    by (auto simp: advance_file_past_next_sync_marker_def)
  have "rescanning (content f) m (offset f) m (snd (f_read buf_size f)) (fst (f_read buf_size f))"
    unfolding rescanning_def using rem
    by (auto simp: f_read_def Let_def intro!: exI [of _ "offset f"])
  with scan_loop_rescanning_never_returns [OF L none y] show False by simp
qed

lemma advance_at_end_of_stream:
  assumes "length (content f) \<le> offset f"
  shows "advance_file_past_next_sync_marker f m = Some (ReturnNone, f)"
  using assms
  by (cases f)
    (simp add: advance_file_past_next_sync_marker_def f_read_def Let_def scan_loop.simps)

text \<open>
  C6.  A stream of sixteen zero bytes and a marker of sixteen one bytes: the marker does not
  occur, and the scan never returns.  After the whole stream has been read, each round
  seeks back fifteen bytes and reads the same fifteen bytes again, so the read that would
  signal exhaustion by returning no data never happens.
\<close>

theorem advance_without_marker_never_returns:
  "advance_file_past_next_sync_marker \<lparr>content = replicate 16 0, offset = 0\<rparr> (replicate 16 1)
     = None"
proof -
  have "\<forall>j\<ge>offset \<lparr>content = replicate 16 0, offset = 0\<rparr>.
          \<not> occurs_at (content \<lparr>content = replicate 16 (0 :: byte), offset = 0\<rparr>)
               (replicate 16 1) j"
    by (auto simp: occurs_at_def)
  then show ?thesis
    by (intro advance_never_returns) (simp_all add: buf_size_def)
qed

end
